theory Spec2Isabelle
  imports Complex_Main "HOL-Library.Multiset"
begin

section \<open>Python values used by the pipeline\<close>

text \<open>
  Strings are lists of characters, Python integers are \<open>int\<close>, the coordinates of an
  embedding are \<open>real\<close> numbers (a float is the real number it stands for). An exception is its class name together with \<open>str(e)\<close>,
  the only two things the handlers of the program look at.
\<close>

datatype exn = Exn (exn_class: string) (exn_str: string)

type_synonym vec = "real list"

text \<open>\<^verbatim>\<open>xs[:n]\<close>: a negative stop counts from the end.\<close>

definition py_slice_to :: "'a list \<Rightarrow> int \<Rightarrow> 'a list" where
  "py_slice_to xs n =
     (if 0 \<le> n then take (nat n) xs else take (nat (int (length xs) + n)) xs)"

text \<open>\<^verbatim>\<open>str.lower()\<close> on the ASCII letters.\<close>

definition lower_char :: "char \<Rightarrow> char" where
  "lower_char c =
     (let n = (of_char c :: nat) in if 65 \<le> n \<and> n \<le> 90 then char_of (n + 32) else c)"

definition lower :: "string \<Rightarrow> string" where
  "lower s = map lower_char s"

text \<open>\<^verbatim>\<open>kw in s\<close> on strings: \<open>kw\<close> occurs in \<open>s\<close> as a contiguous block.\<close>

fun str_contains :: "string \<Rightarrow> string \<Rightarrow> bool" where
  "str_contains [] kw = (kw = [])"
| "str_contains (c # cs) kw = (take (length kw) (c # cs) = kw \<or> str_contains cs kw)"

text \<open>\<^verbatim>\<open>str.strip()\<close>: ASCII white space removed at both ends.\<close>

definition is_space :: "char \<Rightarrow> bool" where
  "is_space c \<longleftrightarrow> c \<in> set [CHR '' '', CHR 0x09, CHR 0x0A, CHR 0x0B, CHR 0x0C, CHR 0x0D]"

definition strip :: "string \<Rightarrow> string" where
  "strip s = rev (dropWhile is_space (rev (dropWhile is_space s)))"

text \<open>\<^verbatim>\<open>str(n)\<close> for a natural number, as the f-strings of the prompt print it.\<close>

fun str_of_nat :: "nat \<Rightarrow> string" where
  "str_of_nat n =
     (if n < 10 then [char_of (48 + n)]
      else str_of_nat (n div 10) @ [char_of (48 + n mod 10)])"

declare str_of_nat.simps [simp del]

definition NL :: string where
  "NL = [CHR 0x0A]"

text \<open>
  An assessment is a JSON object with string values, kept as an association list.
  \<open>item\<close> is \<^verbatim>\<open>assess[key]\<close> (KeyError when absent), \<open>get\<close> is
  \<^verbatim>\<open>assess.get(key, default)\<close>.
\<close>

type_synonym assessment = "(string \<times> string) list"

definition item :: "assessment \<Rightarrow> string \<Rightarrow> exn + string" where
  "item assess key =
     (case map_of assess key of
        None \<Rightarrow> Inl (Exn ''KeyError'' ([CHR 0x27] @ key @ [CHR 0x27]))
      | Some v \<Rightarrow> Inr v)"

definition get :: "assessment \<Rightarrow> string \<Rightarrow> string \<Rightarrow> string" where
  "get assess key dflt = (case map_of assess key of None \<Rightarrow> dflt | Some v \<Rightarrow> v)"


section \<open>reranker.py: parsing the ranked order\<close>

text \<open>
  A text is a list of characters of any kind (code points for a Python string). What
  counts as a decimal digit, and its value, is the table of the Unicode database that
  both the regular expression \<^verbatim>\<open>\d\<close> and \<^verbatim>\<open>int()\<close> consult; it is a parameter,
  \<open>decimal\<close>, of everything here. \<open>ascii_decimal\<close> is that table on the 8-bit characters
  of \<open>string\<close>.
\<close>

definition is_digit :: "('c \<Rightarrow> nat option) \<Rightarrow> 'c \<Rightarrow> bool" where
  "is_digit decimal c \<longleftrightarrow> decimal c \<noteq> None"

definition ascii_decimal :: "char \<Rightarrow> nat option" where
  "ascii_decimal c =
     (let n = (of_char c :: nat) in if 48 \<le> n \<and> n \<le> 57 then Some (n - 48) else None)"

text \<open>
  \<^verbatim>\<open>re.findall(r'\d+', text)\<close>, as the matcher scans: \<open>findall_from decimal run rest\<close>
  carries the run of digits being read.
\<close>

fun findall_from :: "('c \<Rightarrow> nat option) \<Rightarrow> 'c list \<Rightarrow> 'c list \<Rightarrow> 'c list list" where
  "findall_from decimal run [] = (if run = [] then [] else [run])"
| "findall_from decimal run (c # cs) =
     (if is_digit decimal c then findall_from decimal (run @ [c]) cs
      else (if run = [] then [] else [run]) @ findall_from decimal [] cs)"

definition re_findall_digits :: "('c \<Rightarrow> nat option) \<Rightarrow> 'c list \<Rightarrow> 'c list list" where
  "re_findall_digits decimal text = findall_from decimal [] text"

text \<open>
  \<^verbatim>\<open>int(num_str)\<close>. Python integers are unbounded, but the conversion from a string
  refuses more than 4300 digits (the interpreter's default limit) with a ValueError, as
  it refuses a string that is empty or holds anything but digits.
\<close>

definition int_max_str_digits :: nat where
  "int_max_str_digits = 4300"

definition digit_value :: "('c \<Rightarrow> nat option) \<Rightarrow> 'c \<Rightarrow> int" where
  "digit_value decimal c = (case decimal c of None \<Rightarrow> 0 | Some v \<Rightarrow> int v)"

definition py_int :: "('c \<Rightarrow> nat option) \<Rightarrow> 'c list \<Rightarrow> exn + int" where
  "py_int decimal s =
     (if s = [] \<or> \<not> list_all (is_digit decimal) s
      then Inl (Exn ''ValueError'' ''invalid literal for int() with base 10'')
      else if int_max_str_digits < length s
      then Inl (Exn ''ValueError'' ''Exceeds the limit (4300 digits) for integer string conversion'')
      else Inr (foldl (\<lambda>acc c. 10 * acc + digit_value decimal c) 0 s))"

text \<open>
  The first loop of \<^verbatim>\<open>_parse_ranked_order\<close>, over the tokens, with its two
  accumulators; an exception of \<^verbatim>\<open>int\<close> leaves the loop and the function.
\<close>

fun collect_ranked ::
  "('c \<Rightarrow> nat option) \<Rightarrow> int \<Rightarrow> 'c list list \<Rightarrow> int list \<Rightarrow> int set
   \<Rightarrow> exn + int list \<times> int set" where
  "collect_ranked decimal max_num [] ranked_indices seen = Inr (ranked_indices, seen)"
| "collect_ranked decimal max_num (num_str # numbers) ranked_indices seen =
     (case py_int decimal num_str of
        Inl e \<Rightarrow> Inl e
      | Inr num \<Rightarrow>
          if 1 \<le> num \<and> num \<le> max_num \<and> num \<notin> seen
          then collect_ranked decimal max_num numbers (ranked_indices @ [num]) (insert num seen)
          else collect_ranked decimal max_num numbers ranked_indices seen)"

text \<open>The second loop, \<^verbatim>\<open>for i in range(1, max_num + 1)\<close>.\<close>

fun fill_missing :: "int list \<Rightarrow> int list \<Rightarrow> int set \<Rightarrow> int list" where
  "fill_missing [] ranked_indices seen = ranked_indices"
| "fill_missing (i # rest) ranked_indices seen =
     (if i \<notin> seen then fill_missing rest (ranked_indices @ [i]) seen
      else fill_missing rest ranked_indices seen)"

definition parse_ranked_order :: "('c \<Rightarrow> nat option) \<Rightarrow> 'c list \<Rightarrow> int \<Rightarrow> exn + int list" where
  "parse_ranked_order decimal text max_num =
     (let numbers = re_findall_digits decimal text in
      case collect_ranked decimal max_num numbers [] {} of
        Inl e \<Rightarrow> Inl e
      | Inr (ranked_indices, seen) \<Rightarrow>
          (let filled = (if int (length ranked_indices) < max_num
                         then fill_missing [1..max_num] ranked_indices seen
                         else ranked_indices)
           in Inr (py_slice_to filled max_num)))"

text \<open>
  The parse policy in the words of the specification, for comparison with the code.
  The integer tokens of a text are its maximal runs of digits, in appearance order:
  skip what is no digit, take digits as long as they last, go on behind them. The
  value of a token is its decimal value, the last digit counting once, the one before
  ten times, and so on. The recovered order keeps the first occurrence of every value
  within \<open>[1, n]\<close> and then appends the missing positions in ascending order.
\<close>

function digit_runs :: "('c \<Rightarrow> bool) \<Rightarrow> 'c list \<Rightarrow> 'c list list" where
  "digit_runs P s =
     (case dropWhile (\<lambda>c. \<not> P c) s of
        [] \<Rightarrow> []
      | c # r \<Rightarrow> takeWhile P (c # r) # digit_runs P (dropWhile P (c # r)))"
  by pat_completeness auto
termination
proof (relation "measure (\<lambda>(P, s). length s)")
  show "wf (measure (\<lambda>(P, s). length s))"
    by simp
next
  fix P :: "'c \<Rightarrow> bool" and s c r
  assume a: "dropWhile (\<lambda>c. \<not> P c) s = c # r"
  have "P c"
    using hd_dropWhile [of "\<lambda>c. \<not> P c" s] a by simp
  then have "length (dropWhile P (c # r)) \<le> length r"
    by (simp add: length_dropWhile_le)
  moreover have "length (c # r) \<le> length s"
    using length_dropWhile_le [of "\<lambda>c. \<not> P c" s] a by simp
  ultimately show "((P, dropWhile P (c # r)), (P, s)) \<in> measure (\<lambda>(P, s). length s)"
    by simp
qed

declare digit_runs.simps [simp del]

fun units_first_value :: "int list \<Rightarrow> int" where
  "units_first_value [] = 0"
| "units_first_value (v # vs) = v + 10 * units_first_value vs"

definition token_value :: "('c \<Rightarrow> nat option) \<Rightarrow> 'c list \<Rightarrow> int" where
  "token_value decimal s = units_first_value (map (digit_value decimal) (rev s))"

definition integer_tokens :: "('c \<Rightarrow> nat option) \<Rightarrow> 'c list \<Rightarrow> int list" where
  "integer_tokens decimal text = map (token_value decimal) (digit_runs (is_digit decimal) text)"

fun first_occurrences :: "'a list \<Rightarrow> 'a list" where
  "first_occurrences [] = []"
| "first_occurrences (x # xs) = x # first_occurrences (removeAll x xs)"

definition spec_parse :: "int list \<Rightarrow> int \<Rightarrow> int list" where
  "spec_parse tokens n =
     (let kept = first_occurrences (filter (\<lambda>v. 1 \<le> v \<and> v \<le> n) tokens)
      in kept @ filter (\<lambda>i. i \<notin> set kept) [1..n])"


section \<open>The services outside the program\<close>

text \<open>
  Every call that leaves the process is recorded in a trace, and what a service answers
  may depend on everything it was asked before. The services are arbitrary: each may
  fail with any exception or answer with any value of its reply type.
  \<^item> \<open>openai_embeddings_text\<close>, \<open>openai_embeddings_batch\<close>:
    \<^verbatim>\<open>client.embeddings.create(model=..., input=...)\<close>; the reply is the list of the
    \<^verbatim>\<open>embedding\<close> fields of \<^verbatim>\<open>response.data\<close>.
  \<^item> \<open>genai_embed_content\<close>: \<^verbatim>\<open>genai.embed_content(...)\<close>; the reply is the value
    under the key \<^verbatim>\<open>'embedding'\<close>, if the result has one.
  \<^item> \<open>st_encode\<close>, \<open>st_encode_batch\<close>: the local sentence-transformers model.
  \<^item> \<open>genai_generate\<close>, \<open>openai_chat\<close>: the two language models of the reranker; the
    reply is the text read off the response (lines 76-77 and 79-87 of reranker.py), so
    a failure while reading it is a failure of the call.
\<close>

datatype request =
    OpenAI_Embeddings_Text string
  | OpenAI_Embeddings_Batch "string list"
  | Genai_Embed_Content string
  | ST_Encode string
  | ST_Encode_Batch "string list" int
  | Genai_Generate string
  | OpenAI_Chat string

type_synonym trace = "request list"

record world =
  openai_embeddings_text :: "trace \<Rightarrow> string \<Rightarrow> exn + vec list"
  openai_embeddings_batch :: "trace \<Rightarrow> string list \<Rightarrow> exn + vec list"
  genai_embed_content :: "trace \<Rightarrow> string \<Rightarrow> exn + vec option"
  st_encode :: "trace \<Rightarrow> string \<Rightarrow> exn + vec"
  st_encode_batch :: "trace \<Rightarrow> string list \<Rightarrow> int \<Rightarrow> exn + vec list"
  genai_generate :: "trace \<Rightarrow> string \<Rightarrow> exn + string"
  openai_chat :: "trace \<Rightarrow> string \<Rightarrow> exn + string"

text \<open>
  The process environment: the two API keys as \<^verbatim>\<open>os.getenv\<close> returns them, and
  whether each client library can be imported and the local model loaded.
\<close>

record env =
  OPENAI_API_KEY :: "string option"
  GEMINI_API_KEY :: "string option"
  openai_importable :: bool
  genai_importable :: bool
  sentence_transformers_loadable :: bool

text \<open>Truthiness of \<^verbatim>\<open>os.getenv(...)\<close>: set and not empty.\<close>

definition truthy :: "string option \<Rightarrow> bool" where
  "truthy v = (case v of None \<Rightarrow> False | Some s \<Rightarrow> s \<noteq> [])"


section \<open>embeddings.py\<close>

text \<open>
  \<open>provider\<close> is the attribute \<^verbatim>\<open>self.provider\<close> of an \<^verbatim>\<open>EmbeddingGenerator\<close>;
  its constructor rejects every string but \<^verbatim>\<open>"openai"\<close> and \<^verbatim>\<open>"gemini"\<close>.
\<close>

datatype provider = OpenAI | Gemini

datatype generator =
    EmbeddingGenerator provider
  | FallbackEmbeddingGenerator (available: bool)

definition quota_keywords :: "string list" where
  "quota_keywords =
     [''quota'', ''429'', ''insufficient_quota'', ''rate_limit'', ''too_many_requests'']"

text \<open>\<^verbatim>\<open>any(keyword in error_msg for keyword in [...])\<close>\<close>

definition any_quota_keyword :: "string \<Rightarrow> bool" where
  "any_quota_keyword error_msg = list_ex (str_contains error_msg) quota_keywords"

definition openai_quota_error :: "exn \<Rightarrow> exn" where
  "openai_quota_error e =
     Exn ''RuntimeError''
       (''OpenAI API quota exceeded. Error: '' @ exn_str e
        @ ''. Please use Gemini API or sentence-transformers fallback.'')"

definition gemini_quota_error :: "exn \<Rightarrow> exn" where
  "gemini_quota_error e =
     Exn ''RuntimeError''
       (''Gemini API quota exceeded. Error: '' @ exn_str e
        @ ''. Please use sentence-transformers fallback.'')"

text \<open>\<^verbatim>\<open>EmbeddingGenerator.__init__\<close>\<close>

definition EmbeddingGenerator_init :: "env \<Rightarrow> provider \<Rightarrow> exn + generator" where
  "EmbeddingGenerator_init ev p =
     (case p of
        OpenAI \<Rightarrow>
          if \<not> openai_importable ev then Inl (Exn ''ImportError'' ''No module named openai'')
          else if \<not> truthy (OPENAI_API_KEY ev)
          then Inl (Exn ''ValueError'' ''OPENAI_API_KEY not found in environment variables'')
          else Inr (EmbeddingGenerator OpenAI)
      | Gemini \<Rightarrow>
          if \<not> genai_importable ev then Inl (Exn ''ImportError'' ''No module named google'')
          else if \<not> truthy (GEMINI_API_KEY ev)
          then Inl (Exn ''ValueError'' ''GEMINI_API_KEY not found in environment variables'')
          else Inr (EmbeddingGenerator Gemini))"

text \<open>\<^verbatim>\<open>str(KeyError('embedding'))\<close>: the key, quoted.\<close>

definition key_error_embedding :: string where
  "key_error_embedding = [CHR 0x27] @ ''embedding'' @ [CHR 0x27]"

text \<open>
  \<^verbatim>\<open>EmbeddingGenerator.embed\<close>. Each branch is a \<^verbatim>\<open>try\<close> whose body calls the
  service and reads the embedding off the reply, and whose handler either raises the
  quota error or re-raises what it caught.
\<close>

definition embed :: "world \<Rightarrow> provider \<Rightarrow> trace \<Rightarrow> string \<Rightarrow> (exn + vec) \<times> trace" where
  "embed w p tr text =
     (case p of
        OpenAI \<Rightarrow>
          (let body = (case openai_embeddings_text w tr text of
                         Inl e \<Rightarrow> Inl e
                       | Inr [] \<Rightarrow> Inl (Exn ''IndexError'' ''list index out of range'')
                       | Inr (v # _) \<Rightarrow> Inr v);
               tr' = tr @ [OpenAI_Embeddings_Text text]
           in case body of
                Inr v \<Rightarrow> (Inr v, tr')
              | Inl e \<Rightarrow>
                  (let error_msg = lower (exn_str e) in
                   if any_quota_keyword error_msg then (Inl (openai_quota_error e), tr')
                   else (Inl e, tr')))
      | Gemini \<Rightarrow>
          (let body = (case genai_embed_content w tr text of
                         Inl e \<Rightarrow> Inl e
                       | Inr None \<Rightarrow> Inl (Exn ''KeyError'' key_error_embedding)
                       | Inr (Some v) \<Rightarrow> Inr v);
               tr' = tr @ [Genai_Embed_Content text]
           in case body of
                Inr v \<Rightarrow> (Inr v, tr')
              | Inl e \<Rightarrow>
                  (let error_msg = lower (exn_str e) in
                   if str_contains error_msg ''quota'' \<or> str_contains error_msg ''429''
                   then (Inl (gemini_quota_error e), tr')
                   else (Inl e, tr'))))"

text \<open>The inner loop of the Gemini branch of \<^verbatim>\<open>embed_batch\<close>: one call per text.\<close>

fun gemini_embed_texts ::
  "world \<Rightarrow> string list \<Rightarrow> vec list \<Rightarrow> trace \<Rightarrow> (exn + vec list) \<times> trace" where
  "gemini_embed_texts w [] batch_embeddings tr = (Inr batch_embeddings, tr)"
| "gemini_embed_texts w (text # rest) batch_embeddings tr =
     (case genai_embed_content w tr text of
        Inl e \<Rightarrow> (Inl e, tr @ [Genai_Embed_Content text])
      | Inr None \<Rightarrow> (Inl (Exn ''KeyError'' key_error_embedding), tr @ [Genai_Embed_Content text])
      | Inr (Some v) \<Rightarrow>
          gemini_embed_texts w rest (batch_embeddings @ [v]) (tr @ [Genai_Embed_Content text]))"

text \<open>The body of the \<^verbatim>\<open>try\<close> of \<^verbatim>\<open>embed_batch\<close>, for one batch.\<close>

definition embed_batch_body ::
  "world \<Rightarrow> provider \<Rightarrow> trace \<Rightarrow> string list \<Rightarrow> (exn + vec list) \<times> trace" where
  "embed_batch_body w p tr batch =
     (case p of
        OpenAI \<Rightarrow> (openai_embeddings_batch w tr batch, tr @ [OpenAI_Embeddings_Batch batch])
      | Gemini \<Rightarrow> gemini_embed_texts w batch [] tr)"

text \<open>The handler of \<^verbatim>\<open>embed_batch\<close>: the exception that leaves it.\<close>

definition embed_batch_except :: "provider \<Rightarrow> exn \<Rightarrow> exn" where
  "embed_batch_except p e =
     (let error_msg = lower (exn_str e) in
      if any_quota_keyword error_msg
      then (case p of OpenAI \<Rightarrow> openai_quota_error e | Gemini \<Rightarrow> gemini_quota_error e)
      else e)"

text \<open>
  The loop \<^verbatim>\<open>for i in range(0, len(texts), batch_size)\<close> for a positive step; the
  batch is \<^verbatim>\<open>texts[i:i + batch_size]\<close>.
\<close>

function embed_batch_loop ::
  "world \<Rightarrow> provider \<Rightarrow> string list \<Rightarrow> nat \<Rightarrow> nat \<Rightarrow> vec list \<Rightarrow> trace
   \<Rightarrow> (exn + vec list) \<times> trace" where
  "embed_batch_loop w p texts batch_size i embeddings tr =
     (if batch_size = 0 \<or> length texts \<le> i then (Inr embeddings, tr)
      else
        (let batch = take batch_size (drop i texts) in
         case embed_batch_body w p tr batch of
           (Inl e, tr') \<Rightarrow> (Inl (embed_batch_except p e), tr')
         | (Inr batch_embeddings, tr') \<Rightarrow>
             embed_batch_loop w p texts batch_size (i + batch_size)
               (embeddings @ batch_embeddings) tr'))"
  by pat_completeness auto
termination
  by (relation "measure (\<lambda>(w, p, texts, batch_size, i, embeddings, tr). length texts - i)") auto

declare embed_batch_loop.simps [simp del]

text \<open>
  \<^verbatim>\<open>EmbeddingGenerator.embed_batch\<close>. \<^verbatim>\<open>range\<close> raises ValueError for a zero step and
  is empty for a negative one.
\<close>

definition embed_batch ::
  "world \<Rightarrow> provider \<Rightarrow> trace \<Rightarrow> string list \<Rightarrow> int \<Rightarrow> (exn + vec list) \<times> trace" where
  "embed_batch w p tr texts batch_size =
     (if batch_size = 0 then (Inl (Exn ''ValueError'' ''range() arg 3 must not be zero''), tr)
      else if batch_size < 0 then (Inr [], tr)
      else embed_batch_loop w p texts (nat batch_size) 0 [] tr)"

text \<open>\<^verbatim>\<open>FallbackEmbeddingGenerator\<close>: its constructor never raises.\<close>

definition FallbackEmbeddingGenerator_init :: "env \<Rightarrow> generator" where
  "FallbackEmbeddingGenerator_init ev =
     FallbackEmbeddingGenerator (sentence_transformers_loadable ev)"

definition fallback_not_available :: exn where
  "fallback_not_available =
     Exn ''RuntimeError''
       (''Fallback embedding model not available. ''
        @ ''Please install sentence-transformers or provide an API key.'')"

definition fallback_embed :: "world \<Rightarrow> bool \<Rightarrow> trace \<Rightarrow> string \<Rightarrow> (exn + vec) \<times> trace" where
  "fallback_embed w avail tr text =
     (if \<not> avail then (Inl fallback_not_available, tr)
      else (st_encode w tr text, tr @ [ST_Encode text]))"

definition fallback_embed_batch ::
  "world \<Rightarrow> bool \<Rightarrow> trace \<Rightarrow> string list \<Rightarrow> int \<Rightarrow> (exn + vec list) \<times> trace" where
  "fallback_embed_batch w avail tr texts batch_size =
     (if \<not> avail then (Inl fallback_not_available, tr)
      else (st_encode_batch w tr texts batch_size, tr @ [ST_Encode_Batch texts batch_size]))"

text \<open>The method call \<^verbatim>\<open>generator.embed(text)\<close> on either class of generator.\<close>

definition generator_embed ::
  "world \<Rightarrow> generator \<Rightarrow> trace \<Rightarrow> string \<Rightarrow> (exn + vec) \<times> trace" where
  "generator_embed w g tr text =
     (case g of
        EmbeddingGenerator p \<Rightarrow> embed w p tr text
      | FallbackEmbeddingGenerator avail \<Rightarrow> fallback_embed w avail tr text)"

definition generator_embed_batch ::
  "world \<Rightarrow> generator \<Rightarrow> trace \<Rightarrow> string list \<Rightarrow> int \<Rightarrow> (exn + vec list) \<times> trace" where
  "generator_embed_batch w g tr texts batch_size =
     (case g of
        EmbeddingGenerator p \<Rightarrow> embed_batch w p tr texts batch_size
      | FallbackEmbeddingGenerator avail \<Rightarrow> fallback_embed_batch w avail tr texts batch_size)"

text \<open>\<^verbatim>\<open>get_embedding_generator_with_fallback(current_generator)\<close>\<close>

definition get_embedding_generator_with_fallback :: "env \<Rightarrow> generator \<Rightarrow> generator" where
  "get_embedding_generator_with_fallback ev current_generator =
     (if current_generator = EmbeddingGenerator OpenAI \<and> truthy (GEMINI_API_KEY ev)
      then (case EmbeddingGenerator_init ev Gemini of
              Inr g \<Rightarrow> g
            | Inl e \<Rightarrow> FallbackEmbeddingGenerator_init ev)
      else FallbackEmbeddingGenerator_init ev)"


section \<open>vector_store.py\<close>

text \<open>
  Modelled from the spec: \<^verbatim>\<open>faiss.IndexFlatL2\<close> is a library outside the repository;
  its index is modelled as the specification describes the search. An index has a
  dimension and the stored vectors in storage order; \<open>index_search\<close> is the exact
  nearest-neighbour search by linear scan under the squared Euclidean distance: the
  \<open>k\<close> nearest entries (all of them when there are fewer, none when \<open>k \<le> 0\<close>),
  ascending by distance, ties in storage order (the sort is stable). It returns the
  distances and the labels (storage positions), as \<^verbatim>\<open>index.search\<close> returns two
  arrays. The index computes on the vectors it is given (the wrapper converts them to
  single precision first); distances are computed exactly, over the reals. The
  argument checks of the library (dimension of the vectors, positive \<open>k\<close>) are not
  part of the model.
\<close>

record faiss_index =
  index_d :: nat
  index_xb :: "vec list"

definition IndexFlatL2 :: "nat \<Rightarrow> faiss_index" where
  "IndexFlatL2 dimen = \<lparr>index_d = dimen, index_xb = []\<rparr>"

definition ntotal :: "faiss_index \<Rightarrow> nat" where
  "ntotal idx = length (index_xb idx)"

definition index_add :: "faiss_index \<Rightarrow> vec list \<Rightarrow> faiss_index" where
  "index_add idx xs = idx\<lparr>index_xb := index_xb idx @ xs\<rparr>"

definition l2sqr :: "vec \<Rightarrow> vec \<Rightarrow> real" where
  "l2sqr x y = (\<Sum>(a, b)\<leftarrow>zip x y. (a - b)\<^sup>2)"

definition index_search :: "faiss_index \<Rightarrow> vec \<Rightarrow> int \<Rightarrow> real list \<times> nat list" where
  "index_search idx q k =
     (let hits = take (nat k)
                   (sort_key snd (zip [0..<ntotal idx] (map (l2sqr q) (index_xb idx))))
      in (map snd hits, map fst hits))"

text \<open>The object \<^verbatim>\<open>FAISSVectorStore\<close>: its four attributes.\<close>

record FAISSVectorStore =
  dimension :: nat
  index :: faiss_index
  assessments :: "assessment list"
  embeddings_array :: "vec list option"

definition FAISSVectorStore_init :: "nat \<Rightarrow> FAISSVectorStore" where
  "FAISSVectorStore_init dimen =
     \<lparr>dimension = dimen, index = IndexFlatL2 dimen, assessments = [], embeddings_array = None\<rparr>"

text \<open>
  \<^verbatim>\<open>np.array(..., dtype='float32')\<close> converts every coordinate to single precision.
  The conversion of one coordinate is numpy's; it is a parameter, \<open>float32\<close>, of the
  operations that convert, and nothing is assumed of it.
\<close>

definition np_array_float32 :: "(real \<Rightarrow> real) \<Rightarrow> vec list \<Rightarrow> vec list" where
  "np_array_float32 float32 rows = map (map float32) rows"

text \<open>
  \<^verbatim>\<open>add_assessments\<close>. The length check is the only failure of the model, and it comes
  before any assignment. The index receives the converted vectors.
\<close>

definition add_assessments ::
  "(real \<Rightarrow> real) \<Rightarrow> FAISSVectorStore \<Rightarrow> assessment list \<Rightarrow> vec list
   \<Rightarrow> exn + FAISSVectorStore" where
  "add_assessments float32 st new_assessments embeddings =
     (if length new_assessments \<noteq> length embeddings
      then Inl (Exn ''ValueError'' ''Number of assessments must match number of embeddings'')
      else
        (let converted = np_array_float32 float32 embeddings
         in Inr (st\<lparr>assessments := new_assessments,
                      embeddings_array := Some converted,
                      index := index_add (IndexFlatL2 (dimension st)) converted\<rparr>)))"

text \<open>\<^verbatim>\<open>search\<close>: the query is converted like the stored vectors.\<close>

definition search ::
  "(real \<Rightarrow> real) \<Rightarrow> FAISSVectorStore \<Rightarrow> vec \<Rightarrow> int \<Rightarrow> (assessment \<times> real) list" where
  "search float32 st query_embedding top_k =
     (if ntotal (index st) = 0 then []
      else
        (let query_vector = map float32 query_embedding;
             (distances, indices) =
               index_search (index st) query_vector (min top_k (int (length (assessments st))))
         in map (\<lambda>(idx, distance). (assessments st ! idx, distance))
              (filter (\<lambda>(idx, distance). idx < length (assessments st))
                 (zip indices distances))))"

text \<open>
  The file system: a path holds an index as \<^verbatim>\<open>faiss.write_index\<close> wrote it, or a JSON
  document listing assessments; \<^verbatim>\<open>faiss.read_index\<close> and \<^verbatim>\<open>json.load\<close> give back
  what was written, and reading a file of the other kind fails. Errors of the disk are
  not modelled.
\<close>

datatype stored_file = Index_File faiss_index | Json_File "assessment list"

type_synonym filesystem = "string \<Rightarrow> stored_file option"

text \<open>\<^verbatim>\<open>save\<close>: the index is written first, the metadata second.\<close>

definition save :: "filesystem \<Rightarrow> FAISSVectorStore \<Rightarrow> string \<Rightarrow> string \<Rightarrow> filesystem" where
  "save fs st index_path metadata_path =
     (fs(index_path \<mapsto> Index_File (index st)))(metadata_path \<mapsto> Json_File (assessments st))"

text \<open>
  \<^verbatim>\<open>load\<close>. The index is assigned before the metadata is read, so a failure of
  \<^verbatim>\<open>json.load\<close> leaves the new index with the old assessments.
\<close>

definition load ::
  "filesystem \<Rightarrow> FAISSVectorStore \<Rightarrow> string \<Rightarrow> string \<Rightarrow> (exn + unit) \<times> FAISSVectorStore" where
  "load fs st index_path metadata_path =
     (if fs index_path \<noteq> None \<and> fs metadata_path \<noteq> None
      then
        (case fs index_path of
           Some (Index_File idx) \<Rightarrow>
             (let st1 = st\<lparr>index := idx\<rparr> in
              case fs metadata_path of
                Some (Json_File loaded) \<Rightarrow>
                  (let st2 = st1\<lparr>assessments := loaded\<rparr>;
                       st3 = (if loaded \<noteq> [] \<and> 0 < ntotal idx
                              then st2\<lparr>dimension := index_d idx\<rparr> else st2)
                   in (Inr (), st3))
              | _ \<Rightarrow> (Inl (Exn ''JSONDecodeError'' ''Expecting value''), st1))
         | _ \<Rightarrow> (Inl (Exn ''RuntimeError'' ''Error in faiss read_index''), st))
      else (Inr (), st))"


section \<open>reranker.py: rerank\<close>

text \<open>\<open>llm_provider\<close> is \<^verbatim>\<open>self.provider\<close> of an \<^verbatim>\<open>LLMReranker\<close>.\<close>

datatype llm_provider = Gemini_LLM | OpenAI_LLM

text \<open>
  One line of \<^verbatim>\<open>assessments_text\<close>; \<^verbatim>\<open>assess['name']\<close> raises KeyError when the
  name is missing.
\<close>

definition assessment_line :: "nat \<Rightarrow> assessment \<Rightarrow> exn + string" where
  "assessment_line i assess =
     (case item assess ''name'' of
        Inl e \<Rightarrow> Inl e
      | Inr name \<Rightarrow>
          Inr (str_of_nat (i + 1) @ ''. '' @ name @ '' ('' @ get assess ''type'' ''Unknown''
               @ ''): '' @ get assess ''description'' ''No description''))"

fun assessment_lines :: "nat \<Rightarrow> assessment list \<Rightarrow> exn + string list" where
  "assessment_lines i [] = Inr []"
| "assessment_lines i (assess # rest) =
     (case assessment_line i assess of
        Inl e \<Rightarrow> Inl e
      | Inr l \<Rightarrow> (case assessment_lines (i + 1) rest of
                    Inl e \<Rightarrow> Inl e
                  | Inr ls \<Rightarrow> Inr (l # ls)))"

fun join :: "string \<Rightarrow> string list \<Rightarrow> string" where
  "join sep [] = []"
| "join sep [l] = l"
| "join sep (l # ls) = l @ sep @ join sep ls"

definition build_prompt :: "string \<Rightarrow> assessment list \<Rightarrow> exn + string" where
  "build_prompt query candidates =
     (case assessment_lines 0 candidates of
        Inl e \<Rightarrow> Inl e
      | Inr ls \<Rightarrow>
          Inr (''You are an expert in HR and talent assessment. Given a job description or ''
               @ ''query, rank the following SHL assessments by relevance and importance ''
               @ ''for that role.'' @ NL @ NL
               @ ''Job Description/Query:'' @ NL @ query @ NL @ NL
               @ ''Available Assessments:'' @ NL @ join NL ls @ NL @ NL
               @ ''Please rank these assessments from most relevant (1) to least relevant (''
               @ str_of_nat (length candidates) @ ''). '' @ NL
               @ ''Return only the numbers in order of relevance, separated by commas. ''
               @ ''For example: 3,1,5,2,4'' @ NL @ NL
               @ ''Ranked order:''))"

text \<open>The single call to the language model of the reranker's provider.\<close>

definition generate :: "world \<Rightarrow> llm_provider \<Rightarrow> trace \<Rightarrow> string \<Rightarrow> (exn + string) \<times> trace" where
  "generate w provider tr prompt =
     (case provider of
        Gemini_LLM \<Rightarrow> (genai_generate w tr prompt, tr @ [Genai_Generate prompt])
      | OpenAI_LLM \<Rightarrow> (openai_chat w tr prompt, tr @ [OpenAI_Chat prompt]))"

text \<open>
  \<^verbatim>\<open>rerank\<close>. The prompt is built before the \<^verbatim>\<open>try\<close>; the \<^verbatim>\<open>try\<close> holds the call
  and everything done with its answer, the parsing included, and its handler returns
  the candidates as they came, cut to \<open>top_k\<close>. The answer is a \<open>string\<close>, whose
  digits are the ASCII digits.
\<close>

definition rerank ::
  "world \<Rightarrow> llm_provider \<Rightarrow> trace \<Rightarrow> string \<Rightarrow> assessment list \<Rightarrow> int
   \<Rightarrow> (exn + assessment list) \<times> trace" where
  "rerank w provider tr query candidates top_k =
     (if candidates = [] then (Inr [], tr)
      else
        (case build_prompt query candidates of
           Inl e \<Rightarrow> (Inl e, tr)
         | Inr prompt \<Rightarrow>
             (case generate w provider tr prompt of
                (Inl e, tr') \<Rightarrow> (Inr (py_slice_to candidates top_k), tr')
              | (Inr text, tr') \<Rightarrow>
                  (let ranked_text = strip text;
                       n = int (length candidates)
                   in case parse_ranked_order ascii_decimal ranked_text n of
                        Inl e \<Rightarrow> (Inr (py_slice_to candidates top_k), tr')
                      | Inr ranked_indices \<Rightarrow>
                          (let reranked = map (\<lambda>i. candidates ! nat (i - 1))
                                            (filter (\<lambda>i. 1 \<le> i \<and> i \<le> n) ranked_indices);
                               unranked = map snd
                                            (filter (\<lambda>(i, assess). int i + 1 \<notin> set ranked_indices)
                                               (enumerate 0 candidates))
                           in (Inr (py_slice_to (reranked @ unranked) top_k), tr'))))))"


section \<open>recommend.py\<close>

text \<open>
  The engine: its embedding generator, its vector store and its reranker (\<open>None\<close> when
  reranking is off or no key was found).
\<close>

record engine =
  embedding_generator :: generator
  vector_store :: FAISSVectorStore
  reranker :: "llm_provider option"

text \<open>One entry of the list \<^verbatim>\<open>recommend\<close> returns.\<close>

record recommendation =
  assessment_name :: string
  assessment_url :: string
  test_type :: string
  description :: string

definition format_result :: "assessment \<Rightarrow> recommendation" where
  "format_result assess =
     \<lparr>assessment_name = get assess ''name'' ''Unknown'',
      assessment_url = get assess ''url'' '''',
      test_type = get assess ''type'' ''Unknown'',
      description = get assess ''description'' ''''\<rparr>"

text \<open>
  Lines 109-122 of \<^verbatim>\<open>recommend\<close>: the query embedding, with the fallback. The retry
  stands in the handler, outside any \<^verbatim>\<open>try\<close>: whatever it raises leaves the function.
\<close>

definition recommend_embed ::
  "env \<Rightarrow> world \<Rightarrow> engine \<Rightarrow> trace \<Rightarrow> string \<Rightarrow> (exn + vec) \<times> engine \<times> trace" where
  "recommend_embed ev w eng tr query =
     (case generator_embed w (embedding_generator eng) tr query of
        (Inr query_embedding, tr1) \<Rightarrow> (Inr query_embedding, eng, tr1)
      | (Inl e, tr1) \<Rightarrow>
          (let error_msg = lower (exn_str e) in
           if any_quota_keyword error_msg
           then
             (let eng' = eng\<lparr>embedding_generator :=
                               get_embedding_generator_with_fallback ev (embedding_generator eng)\<rparr>;
                  (r, tr2) = generator_embed w (embedding_generator eng') tr1 query
              in (r, eng', tr2))
           else (Inl e, eng, tr1)))"

text \<open>
  Lines 73-86 of \<^verbatim>\<open>_load_or_build_index\<close>: the catalog's embeddings, with the same
  fallback; \<^verbatim>\<open>embed_batch(texts)\<close> takes the default batch size 100.
\<close>

definition load_or_build_index_embed ::
  "env \<Rightarrow> world \<Rightarrow> engine \<Rightarrow> trace \<Rightarrow> string list \<Rightarrow> (exn + vec list) \<times> engine \<times> trace" where
  "load_or_build_index_embed ev w eng tr texts =
     (case generator_embed_batch w (embedding_generator eng) tr texts 100 of
        (Inr embeddings, tr1) \<Rightarrow> (Inr embeddings, eng, tr1)
      | (Inl e, tr1) \<Rightarrow>
          (let error_msg = lower (exn_str e) in
           if any_quota_keyword error_msg
           then
             (let eng' = eng\<lparr>embedding_generator :=
                               get_embedding_generator_with_fallback ev (embedding_generator eng)\<rparr>;
                  (r, tr2) = generator_embed_batch w (embedding_generator eng') tr1 texts 100
              in (r, eng', tr2))
           else (Inl e, eng, tr1)))"

text \<open>Lines 124-145 of \<^verbatim>\<open>recommend\<close>: retrieval, reranking and formatting.\<close>

definition recommend_retrieve ::
  "(real \<Rightarrow> real) \<Rightarrow> world \<Rightarrow> engine \<Rightarrow> trace \<Rightarrow> string \<Rightarrow> vec \<Rightarrow> int
   \<Rightarrow> (exn + recommendation list) \<times> trace" where
  "recommend_retrieve float32 w eng tr query query_embedding top_k =
     (let search_k = (if reranker eng \<noteq> None then top_k * 2 else top_k);
          results = search float32 (vector_store eng) query_embedding search_k;
          found = map fst results;
          (ranked, tr') =
            (case reranker eng of
               Some provider \<Rightarrow>
                 if 1 < length found then rerank w provider tr query found top_k
                 else (Inr found, tr)
             | None \<Rightarrow> (Inr found, tr))
      in case ranked of
           Inl e \<Rightarrow> (Inl e, tr')
         | Inr kept \<Rightarrow> (Inr (map format_result (py_slice_to kept top_k)), tr'))"

text \<open>\<^verbatim>\<open>RecommendationEngine.recommend\<close>\<close>

definition recommend ::
  "(real \<Rightarrow> real) \<Rightarrow> env \<Rightarrow> world \<Rightarrow> engine \<Rightarrow> trace \<Rightarrow> string \<Rightarrow> int
   \<Rightarrow> (exn + recommendation list) \<times> engine \<times> trace" where
  "recommend float32 ev w eng tr query top_k =
     (case recommend_embed ev w eng tr query of
        (Inl e, eng', tr') \<Rightarrow> (Inl e, eng', tr')
      | (Inr query_embedding, eng', tr') \<Rightarrow>
          (let (r, tr'') = recommend_retrieve float32 w eng' tr' query query_embedding top_k
           in (r, eng', tr'')))"


section \<open>Notions used to state the properties\<close>





text \<open>
  \<open>scan\<close> is the sorted list \<open>index_search\<close> takes its hits from. \<open>search_labels\<close> is
  the list of pairs of storage position and distance that \<^verbatim>\<open>search\<close> keeps, before it
  looks the assessments up. \<open>nearer\<close> orders such pairs by distance, then by storage
  position.
\<close>

definition scan :: "faiss_index \<Rightarrow> vec \<Rightarrow> (nat \<times> real) list" where
  "scan idx q = sort_key snd (zip [0..<ntotal idx] (map (l2sqr q) (index_xb idx)))"

definition search_labels ::
  "(real \<Rightarrow> real) \<Rightarrow> FAISSVectorStore \<Rightarrow> vec \<Rightarrow> int \<Rightarrow> (nat \<times> real) list" where
  "search_labels float32 st query_embedding top_k =
     (if ntotal (index st) = 0 then []
      else
        (let query_vector = map float32 query_embedding;
             (distances, indices) =
               index_search (index st) query_vector (min top_k (int (length (assessments st))))
         in filter (\<lambda>(idx, distance). idx < length (assessments st)) (zip indices distances)))"

definition nearer :: "nat \<times> real \<Rightarrow> nat \<times> real \<Rightarrow> bool" where
  "nearer a b \<longleftrightarrow> snd a < snd b \<or> (snd a = snd b \<and> fst a < fst b)"

text \<open>The first position of a value in a list (the length of the list when the value is absent).\<close>

fun first_position :: "'a list \<Rightarrow> 'a \<Rightarrow> nat" where
  "first_position [] x = 0"
| "first_position (y # ys) x = (if y = x then 0 else Suc (first_position ys x))"

text \<open>The invariant of the vector store: as many vectors as assessments.\<close>

definition consistent :: "FAISSVectorStore \<Rightarrow> bool" where
  "consistent st \<longleftrightarrow> ntotal (index st) = length (assessments st)"



section \<open>Concrete inputs for the examples\<close>

text \<open>
  A world in which the hosted single-text endpoint of OpenAI is out of quota, the other
  embedding services answer, the Gemini language model answers and the OpenAI one is
  unreachable; a world in which every service fails with a given exception; a catalog
  of three assessments with their vectors, in which the first and the third vector are
  equal.
\<close>

definition demo_world :: world where
  "demo_world =
     \<lparr>openai_embeddings_text = (\<lambda>tr text. Inl (Exn ''RateLimitError'' ''Error code: 429'')),
      openai_embeddings_batch = (\<lambda>tr texts. Inr (map (\<lambda>t. [real (length t)]) texts)),
      genai_embed_content = (\<lambda>tr text. Inr (Some [0, 1])),
      st_encode = (\<lambda>tr text. Inr [0, 2]),
      st_encode_batch = (\<lambda>tr texts n. Inr (map (\<lambda>t. [0, 2]) texts)),
      genai_generate = (\<lambda>tr prompt. Inr '' 2, 1 ''),
      openai_chat = (\<lambda>tr prompt. Inl (Exn ''APIConnectionError'' ''Connection error.''))\<rparr>"

definition failing_world :: "exn \<Rightarrow> world" where
  "failing_world e =
     \<lparr>openai_embeddings_text = (\<lambda>tr text. Inl e),
      openai_embeddings_batch = (\<lambda>tr texts. Inl e),
      genai_embed_content = (\<lambda>tr text. Inl e),
      st_encode = (\<lambda>tr text. Inl e),
      st_encode_batch = (\<lambda>tr texts n. Inl e),
      genai_generate = (\<lambda>tr prompt. Inl e),
      openai_chat = (\<lambda>tr prompt. Inl e)\<rparr>"

definition rate_limited :: exn where
  "rate_limited = Exn ''ResourceExhausted'' ''rate_limit exceeded''"

definition demo_env :: env where
  "demo_env =
     \<lparr>OPENAI_API_KEY = Some ''sk-test'', GEMINI_API_KEY = Some ''g-test'',
      openai_importable = True, genai_importable = True,
      sentence_transformers_loadable = True\<rparr>"

definition java_test :: assessment where
  "java_test = [(''name'', ''Java Test''), (''url'', ''https://example.test/java''),
                (''type'', ''Knowledge''), (''description'', ''Java programming'')]"

definition python_test :: assessment where
  "python_test = [(''name'', ''Python Test''), (''url'', ''https://example.test/python''),
                  (''type'', ''Knowledge'')]"

definition teamwork_test :: assessment where
  "teamwork_test = [(''name'', ''Teamwork Test''), (''url'', ''https://example.test/teamwork''),
                    (''type'', ''Behaviour''), (''description'', ''Working with others'')]"

definition demo_catalog :: "assessment list" where
  "demo_catalog = [java_test, python_test, teamwork_test]"

text \<open>
  A conversion for the examples: rounding to the nearest multiple of \<open>2^-23\<close>, the
  spacing of single precision between 1 and 2; it leaves small integers as they are.
\<close>

definition demo_float32 :: "real \<Rightarrow> real" where
  "demo_float32 x = of_int (round (x * 8388608)) / 8388608"

definition demo_vectors :: "vec list" where
  "demo_vectors = [[3, 4], [0, 1], [3, 4]]"

definition demo_store :: FAISSVectorStore where
  "demo_store =
     \<lparr>dimension = 2,
      index = \<lparr>index_d = 2, index_xb = demo_vectors\<rparr>,
      assessments = demo_catalog,
      embeddings_array = Some demo_vectors\<rparr>"

definition local_engine :: engine where
  "local_engine =
     \<lparr>embedding_generator = FallbackEmbeddingGenerator True,
      vector_store = demo_store, reranker = None\<rparr>"

definition openai_engine :: engine where
  "openai_engine =
     \<lparr>embedding_generator = EmbeddingGenerator OpenAI,
      vector_store = demo_store, reranker = Some Gemini_LLM\<rparr>"

text \<open>
  A store, as loaded from persisted files, whose second assessment has no name, and an
  engine with a reranker over it.
\<close>

definition nameless_test :: assessment where
  "nameless_test = [(''url'', ''https://example.test/python''), (''type'', ''Knowledge'')]"

definition nameless_store :: FAISSVectorStore where
  "nameless_store =
     \<lparr>dimension = 2,
      index = \<lparr>index_d = 2, index_xb = [[3, 4], [0, 1]]\<rparr>,
      assessments = [java_test, nameless_test],
      embeddings_array = None\<rparr>"

definition reranking_engine :: engine where
  "reranking_engine =
     \<lparr>embedding_generator = FallbackEmbeddingGenerator True,
      vector_store = nameless_store, reranker = Some Gemini_LLM\<rparr>"


text \<open>A file system whose index file holds one vector and whose metadata lists three assessments.\<close>

definition mismatched_fs :: filesystem where
  "mismatched_fs =
     [''catalog_embeddings.faiss'' \<mapsto> Index_File \<lparr>index_d = 2, index_xb = [[3, 4]]\<rparr>,
      ''catalog_metadata.json'' \<mapsto> Json_File demo_catalog]"


section \<open>Proofs: the rank parser\<close>

lemma digit_runs_Nil: "digit_runs P [] = []"
  by (simp add: digit_runs.simps [of P "[]"])

lemma digit_runs_Cons:
  "digit_runs P (c # cs) =
     (if P c then takeWhile P (c # cs) # digit_runs P (dropWhile P (c # cs))
      else digit_runs P cs)"
proof (cases "P c")
  case True
  then show ?thesis
    by (simp add: digit_runs.simps [of P "c # cs"])
next
  case False
  have "digit_runs P (c # cs) =
          (case dropWhile (\<lambda>c. \<not> P c) cs of
             [] \<Rightarrow> []
           | c # r \<Rightarrow> takeWhile P (c # r) # digit_runs P (dropWhile P (c # r)))"
    using False by (simp add: digit_runs.simps [of P "c # cs"])
  also have "\<dots> = digit_runs P cs"
    by (simp add: digit_runs.simps [of P cs])
  finally show ?thesis
    using False by simp
qed

lemma findall_from_runs:
  "findall_from decimal run s =
     (if run = [] then digit_runs (is_digit decimal) s
      else (run @ takeWhile (is_digit decimal) s)
             # digit_runs (is_digit decimal) (dropWhile (is_digit decimal) s))"
proof (induction s arbitrary: run)
  case Nil
  then show ?case by (simp add: digit_runs_Nil)
next
  case (Cons c cs)
  show ?case
  proof (cases "is_digit decimal c")
    case True
    then show ?thesis
      by (simp add: Cons.IH [of "run @ [c]"] digit_runs_Cons)
  next
    case False
    then show ?thesis
      by (simp add: Cons.IH [of "[]"] digit_runs_Cons)
  qed
qed

lemma re_findall_digits_runs:
  "re_findall_digits decimal text = digit_runs (is_digit decimal) text"
  by (simp add: re_findall_digits_def findall_from_runs)

lemma digit_runs_digits:
  "run \<in> set (digit_runs P s) \<Longrightarrow> run \<noteq> [] \<and> list_all P run"
proof (induction "length s" arbitrary: s rule: less_induct)
  case less
  show ?case
  proof (cases s)
    case Nil
    then show ?thesis
      using less.prems by (simp add: digit_runs_Nil)
  next
    case (Cons c cs)
    show ?thesis
    proof (cases "P c")
      case True
      have shorter: "length (dropWhile P (c # cs)) < length s"
        using True Cons length_dropWhile_le [of P cs] by simp
      have "run = takeWhile P (c # cs) \<or> run \<in> set (digit_runs P (dropWhile P (c # cs)))"
        using less.prems Cons True by (simp add: digit_runs_Cons)
      then show ?thesis
      proof
        assume "run = takeWhile P (c # cs)"
        then show ?thesis
          using True by (auto simp: list_all_iff dest: set_takeWhileD)
      next
        assume "run \<in> set (digit_runs P (dropWhile P (c # cs)))"
        then show ?thesis
          using less.hyps [OF shorter] by simp
      qed
    next
      case False
      have "run \<in> set (digit_runs P cs)"
        using less.prems Cons False by (simp add: digit_runs_Cons)
      then show ?thesis
        using less.hyps [of cs] Cons by simp
    qed
  qed
qed

lemma foldl_units_first:
  "foldl (\<lambda>acc c. 10 * acc + f c) 0 s = units_first_value (map f (rev s))"
  by (induction s rule: rev_induct) simp_all

lemma py_int_value:
  assumes "s \<noteq> []" "list_all (is_digit decimal) s" "length s \<le> int_max_str_digits"
  shows "py_int decimal s = Inr (token_value decimal s)"
  using assms by (simp add: py_int_def token_value_def foldl_units_first)

lemma py_int_too_long:
  assumes "s \<noteq> []" "list_all (is_digit decimal) s" "int_max_str_digits < length s"
  shows "py_int decimal s =
           Inl (Exn ''ValueError'' ''Exceeds the limit (4300 digits) for integer string conversion'')"
  using assms by (simp add: py_int_def)

lemma set_first_occurrences: "set (first_occurrences xs) = set xs"
  by (induction xs rule: first_occurrences.induct) auto

lemma distinct_first_occurrences: "distinct (first_occurrences xs)"
  by (induction xs rule: first_occurrences.induct) (auto simp: set_first_occurrences)

lemma collect_ranked_eq:
  assumes "\<forall>t\<in>set toks. py_int decimal t = Inr (val t)"
  shows "collect_ranked decimal n toks r (set r) =
     Inr (r @ first_occurrences (filter (\<lambda>v. 1 \<le> v \<and> v \<le> n \<and> v \<notin> set r) (map val toks)),
          set r \<union> set (filter (\<lambda>v. 1 \<le> v \<and> v \<le> n) (map val toks)))"
  using assms
proof (induction toks arbitrary: r)
  case Nil
  then show ?case by simp
next
  case (Cons t toks)
  let ?v = "val t"
  have pv: "py_int decimal t = Inr ?v"
    using Cons.prems by simp
  have rest: "\<forall>t\<in>set toks. py_int decimal t = Inr (val t)"
    using Cons.prems by simp
  show ?case
  proof (cases "1 \<le> ?v \<and> ?v \<le> n \<and> ?v \<notin> set r")
    case True
    have step: "collect_ranked decimal n (t # toks) r (set r)
                = collect_ranked decimal n toks (r @ [?v]) (set (r @ [?v]))"
      using True pv by simp
    have flt: "removeAll ?v (filter (\<lambda>v. 1 \<le> v \<and> v \<le> n \<and> v \<notin> set r) (map val toks))
               = filter (\<lambda>v. 1 \<le> v \<and> v \<le> n \<and> v \<notin> set (r @ [?v])) (map val toks)"
      by (induction toks) auto
    show ?thesis
      unfolding step Cons.IH [OF rest] using True flt by auto
  next
    case False
    have step: "collect_ranked decimal n (t # toks) r (set r)
                = collect_ranked decimal n toks r (set r)"
      using False pv by auto
    show ?thesis
      unfolding step Cons.IH [OF rest] using False by auto
  qed
qed

lemma fill_missing_eq: "fill_missing is r seen = r @ filter (\<lambda>i. i \<notin> seen) is"
  by (induction "is" arbitrary: r) auto

lemma spec_parse_perm:
  "distinct (spec_parse toks n) \<and> set (spec_parse toks n) = {1..n}"
  by (auto simp: spec_parse_def Let_def distinct_first_occurrences set_first_occurrences)

lemma spec_parse_mset: "mset (spec_parse toks n) = mset [1..n]"
proof -
  have "set (spec_parse toks n) = set [1..n]"
    using spec_parse_perm by simp
  then show ?thesis
    using spec_parse_perm set_eq_iff_mset_eq_distinct [of "spec_parse toks n" "[1..n]"]
    by simp
qed

lemma spec_parse_length: "length (spec_parse toks n) = nat n"
proof -
  have "length (spec_parse toks n) = length [1..n]"
    using spec_parse_mset [of toks n] by (metis size_mset)
  then show ?thesis by simp
qed

lemma kept_full:
  assumes "distinct kept" "set kept \<subseteq> {1..n}" "\<not> int (length kept) < n"
  shows "filter (\<lambda>i. i \<notin> set kept) [1..n] = []"
proof -
  have "card (set kept) = length kept"
    using assms(1) by (simp add: distinct_card)
  moreover have "card {1..n} = nat n"
    by simp
  ultimately have "card {1..n} \<le> card (set kept)"
    using assms(3) by linarith
  then have "set kept = {1..n}"
    using assms(2) by (simp add: card_seteq)
  then show ?thesis
    by (simp add: filter_empty_conv)
qed

lemma parse_ranked_order_refines:
  assumes "\<forall>run\<in>set (digit_runs (is_digit decimal) text). length run \<le> int_max_str_digits"
  shows "parse_ranked_order decimal text n = Inr (spec_parse (integer_tokens decimal text) n)"
proof -
  let ?toks = "re_findall_digits decimal text"
  let ?vals = "integer_tokens decimal text"
  let ?kept = "first_occurrences (filter (\<lambda>v. 1 \<le> v \<and> v \<le> n) ?vals)"
  have conv: "\<forall>t\<in>set ?toks. py_int decimal t = Inr (token_value decimal t)"
  proof
    fix t assume t: "t \<in> set ?toks"
    then have r: "t \<in> set (digit_runs (is_digit decimal) text)"
      by (simp add: re_findall_digits_runs)
    show "py_int decimal t = Inr (token_value decimal t)"
      using digit_runs_digits [OF r] assms r by (intro py_int_value) auto
  qed
  have vals: "map (token_value decimal) ?toks = ?vals"
    by (simp add: integer_tokens_def re_findall_digits_runs)
  have c: "collect_ranked decimal n ?toks [] {} = Inr (?kept, set ?kept)"
    using collect_ranked_eq [OF conv, of n "[]"] by (simp add: vals set_first_occurrences)
  have sub: "set ?kept \<subseteq> {1..n}"
    by (auto simp: set_first_occurrences)
  have filled:
    "(if int (length ?kept) < n then fill_missing [1..n] ?kept (set ?kept) else ?kept)
       = spec_parse ?vals n"
    using kept_full [OF distinct_first_occurrences sub]
    by (simp add: fill_missing_eq spec_parse_def Let_def)
  have "py_slice_to (spec_parse ?vals n) n = spec_parse ?vals n"
    using spec_parse_length [of ?vals n]
    by (cases "0 \<le> n") (auto simp add: py_slice_to_def)
  then show ?thesis
    by (simp add: parse_ranked_order_def Let_def c filled)
qed

lemma digit_runs_replicate:
  assumes "0 < m" "P c"
  shows "digit_runs P (replicate m c) = [replicate m c]"
proof -
  obtain k where m: "m = Suc k"
    using assms(1) by (cases m) auto
  have t: "takeWhile P (replicate k c) = replicate k c"
    using assms(2) by (simp add: takeWhile_eq_all_conv)
  have d: "dropWhile P (replicate k c) = []"
    using assms(2) by simp
  show ?thesis
    using assms(2) by (simp add: m digit_runs_Cons t d digit_runs_Nil)
qed

text \<open>
  Claim C1, as stated, fails on a text with a very long run of digits: \<^verbatim>\<open>int()\<close> refuses
  a token of 4301 digits, and the parser raises ValueError instead of returning a
  permutation.
\<close>

theorem parse_ranked_order_raises_on_long_run:
  "parse_ranked_order ascii_decimal (replicate 4301 (CHR ''1'')) 3 =
     Inl (Exn ''ValueError'' ''Exceeds the limit (4300 digits) for integer string conversion'')"
proof -
  let ?s = "replicate 4301 (CHR ''1'')"
  have d: "is_digit ascii_decimal (CHR ''1'')"
    by (simp add: is_digit_def ascii_decimal_def)
  have toks: "re_findall_digits ascii_decimal ?s = [?s]"
    using digit_runs_replicate [of 4301 "is_digit ascii_decimal" "CHR ''1''"] d
    by (simp add: re_findall_digits_runs)
  have ne: "?s \<noteq> []"
    by (simp add: replicate_empty)
  have al: "list_all (is_digit ascii_decimal) ?s"
    using d by (simp add: list_all_iff)
  have ln: "int_max_str_digits < length ?s"
    by (simp add: int_max_str_digits_def)
  show ?thesis
    by (simp only: parse_ranked_order_def Let_def toks collect_ranked.simps
        py_int_too_long [OF ne al ln] sum.case)
qed

text \<open>
  Claim C1, amended. For every response text whose runs of digits have at most 4300
  digits each and every candidate count \<open>n\<close>, the rank parser returns what the parse
  policy prescribes on the integer tokens of the text (first occurrences of the values
  within \<open>[1, n]\<close> in appearance order, then the missing positions ascending), and the
  result is a permutation of \<open>1..n\<close>. The text "3, 1, 1, 99, 2" with \<open>n = 3\<close> gives
  \<open>[3, 1, 2]\<close>; a text without integers with \<open>n = 4\<close> gives \<open>[1, 2, 3, 4]\<close>.
\<close>

theorem parse_ranked_order_permutation:
  assumes "\<forall>run\<in>set (digit_runs (is_digit decimal) text). length run \<le> 4300"
  shows "parse_ranked_order decimal text n = Inr (spec_parse (integer_tokens decimal text) n)
   \<and> mset (spec_parse (integer_tokens decimal text) n) = mset [1..n]
   \<and> parse_ranked_order ascii_decimal ''3, 1, 1, 99, 2'' 3 = Inr [3, 1, 2]
   \<and> parse_ranked_order ascii_decimal ''no numbers here'' 4 = Inr [1, 2, 3, 4]"
proof -
  have a: "parse_ranked_order decimal text n = Inr (spec_parse (integer_tokens decimal text) n)"
    using assms by (intro parse_ranked_order_refines) (simp add: int_max_str_digits_def)
  have b: "parse_ranked_order ascii_decimal ''3, 1, 1, 99, 2'' 3 = Inr [3, 1, 2]"
    by (simp add: parse_ranked_order_def re_findall_digits_def is_digit_def ascii_decimal_def
        py_int_def int_max_str_digits_def digit_value_def py_slice_to_def Let_def upto_rec1)
  have c: "parse_ranked_order ascii_decimal ''no numbers here'' 4 = Inr [1, 2, 3, 4]"
    by (simp add: parse_ranked_order_def re_findall_digits_def is_digit_def ascii_decimal_def
        py_int_def int_max_str_digits_def digit_value_def py_slice_to_def Let_def upto_rec1)
  from a spec_parse_mset [of "integer_tokens decimal text" n] b c show ?thesis
    by (intro conjI)
qed

lemma demo_integer_tokens:
  "digit_runs (is_digit ascii_decimal) ''Ranked: 2, 10 and 2'' = [''2'', ''10'', ''2'']
   \<and> integer_tokens ascii_decimal ''Ranked: 2, 10 and 2'' = [2, 10, 2]"
  by (simp add: integer_tokens_def digit_runs_Cons digit_runs_Nil is_digit_def ascii_decimal_def
      token_value_def digit_value_def)

theorem parse_ranked_order_permutation_witness:
  "digit_runs (is_digit ascii_decimal) ''Ranked: 2, 10 and 2'' = [''2'', ''10'', ''2'']
   \<and> integer_tokens ascii_decimal ''Ranked: 2, 10 and 2'' = [2, 10, 2]
   \<and> parse_ranked_order ascii_decimal ''Ranked: 2, 10 and 2'' 3 = Inr [2, 1, 3]"
proof -
  have h: "\<forall>run\<in>set (digit_runs (is_digit ascii_decimal) ''Ranked: 2, 10 and 2'').
             length run \<le> 4300"
    using demo_integer_tokens by simp
  have s: "spec_parse [2, 10, 2] 3 = [2, 1, 3]"
    by (simp add: spec_parse_def upto_rec1)
  show ?thesis
    using parse_ranked_order_permutation [OF h, of 3] demo_integer_tokens s
    by simp
qed


section \<open>Proofs: classification of provider failures\<close>

lemma str_contains_empty: "str_contains s []"
  by (induction s) auto

lemma str_contains_append: "str_contains a kw \<Longrightarrow> str_contains (a @ b) kw"
proof (induction a)
  case Nil
  then show ?case by (simp add: str_contains_empty)
next
  case (Cons c cs)
  show ?case
  proof (cases "take (length kw) (c # cs) = kw")
    case True
    then have "length (take (length kw) (c # cs)) = length kw"
      by simp
    then have "length kw \<le> length (c # cs)"
      by simp
    then have "take (length kw) ((c # cs) @ b) = kw"
      unfolding take_append using True by simp
    then show ?thesis by simp
  next
    case False
    then show ?thesis using Cons by simp
  qed
qed

lemma lower_append: "lower (a @ b) = lower a @ lower b"
  by (simp add: lower_def)

lemma openai_quota_error_is_quota:
  "any_quota_keyword (lower (exn_str (openai_quota_error e)))"
proof -
  let ?rest = "exn_str e @ ''. Please use Gemini API or sentence-transformers fallback.''"
  have h: "str_contains (lower ''OpenAI API quota exceeded. Error: '') ''quota''"
    by (simp add: lower_def lower_char_def)
  have eq: "lower (exn_str (openai_quota_error e))
            = lower ''OpenAI API quota exceeded. Error: '' @ lower ?rest"
    by (simp add: openai_quota_error_def lower_def)
  have "str_contains (lower (exn_str (openai_quota_error e))) ''quota''"
    unfolding eq by (rule str_contains_append [OF h])
  then show ?thesis
    by (simp add: any_quota_keyword_def quota_keywords_def)
qed

lemma gemini_quota_error_is_quota:
  "any_quota_keyword (lower (exn_str (gemini_quota_error e)))"
proof -
  let ?rest = "exn_str e @ ''. Please use sentence-transformers fallback.''"
  have h: "str_contains (lower ''Gemini API quota exceeded. Error: '') ''quota''"
    by (simp add: lower_def lower_char_def)
  have eq: "lower (exn_str (gemini_quota_error e))
            = lower ''Gemini API quota exceeded. Error: '' @ lower ?rest"
    by (simp add: gemini_quota_error_def lower_def)
  have "str_contains (lower (exn_str (gemini_quota_error e))) ''quota''"
    unfolding eq by (rule str_contains_append [OF h])
  then show ?thesis
    by (simp add: any_quota_keyword_def quota_keywords_def)
qed

lemma embed_openai_failure:
  assumes "openai_embeddings_text w tr text = Inl e"
  shows "embed w OpenAI tr text =
           (Inl (if any_quota_keyword (lower (exn_str e)) then openai_quota_error e else e),
            tr @ [OpenAI_Embeddings_Text text])"
  using assms by (simp add: embed_def Let_def)

lemma embed_gemini_failure:
  assumes "genai_embed_content w tr text = Inl e"
  shows "embed w Gemini tr text =
           (Inl (if str_contains (lower (exn_str e)) ''quota'' \<or> str_contains (lower (exn_str e)) ''429''
                 then gemini_quota_error e else e),
            tr @ [Genai_Embed_Content text])"
  using assms by (simp add: embed_def Let_def)


text \<open>
  Claim C2. Every failure of a hosted provider is to be classified as a quota failure
  exactly when its message carries 429 or a quota, rate-limit or too-many-requests
  marker, in \<^verbatim>\<open>embed\<close> and in \<^verbatim>\<open>embed_batch\<close>, and signalled by the provider's quota
  error. The Gemini branch of \<^verbatim>\<open>embed\<close> looks for \<open>quota\<close> and \<open>429\<close> only: a Gemini
  failure whose message is "rate_limit exceeded" leaves \<^verbatim>\<open>embed\<close> unchanged, while
  \<^verbatim>\<open>embed_batch\<close> of the same provider and both paths of the OpenAI provider raise the
  quota error for it.
\<close>

theorem gemini_embed_misses_rate_limit:
  "embed (failing_world rate_limited) Gemini [] ''query''
     = (Inl rate_limited, [Genai_Embed_Content ''query''])
   \<and> embed_batch (failing_world rate_limited) Gemini [] [''query''] 100
     = (Inl (gemini_quota_error rate_limited), [Genai_Embed_Content ''query''])
   \<and> embed (failing_world rate_limited) OpenAI [] ''query''
     = (Inl (openai_quota_error rate_limited), [OpenAI_Embeddings_Text ''query''])
   \<and> embed_batch (failing_world rate_limited) OpenAI [] [''query''] 100
     = (Inl (openai_quota_error rate_limited), [OpenAI_Embeddings_Batch [''query'']])"
proof -
  have a: "embed (failing_world rate_limited) Gemini [] ''query''
     = (Inl rate_limited, [Genai_Embed_Content ''query''])"
    by (simp add: embed_def failing_world_def rate_limited_def lower_def lower_char_def)
  have b: "embed_batch (failing_world rate_limited) Gemini [] [''query''] 100
     = (Inl (gemini_quota_error rate_limited), [Genai_Embed_Content ''query''])"
    by (simp add: embed_batch_def embed_batch_loop.simps embed_batch_body_def
        embed_batch_except_def failing_world_def rate_limited_def lower_def lower_char_def
        any_quota_keyword_def quota_keywords_def)
  have c: "embed (failing_world rate_limited) OpenAI [] ''query''
     = (Inl (openai_quota_error rate_limited), [OpenAI_Embeddings_Text ''query''])"
    by (simp add: embed_def failing_world_def rate_limited_def lower_def lower_char_def
        any_quota_keyword_def quota_keywords_def)
  have d: "embed_batch (failing_world rate_limited) OpenAI [] [''query''] 100
     = (Inl (openai_quota_error rate_limited), [OpenAI_Embeddings_Batch [''query'']])"
    by (simp add: embed_batch_def embed_batch_loop.simps embed_batch_body_def
        embed_batch_except_def failing_world_def rate_limited_def lower_def lower_char_def
        any_quota_keyword_def quota_keywords_def)
  from a b c d show ?thesis by (intro conjI)
qed



section \<open>Proofs: batches\<close>

















section \<open>Proofs: fallback in the orchestrator\<close>

lemma generator_embed_requests:
  "length (snd (generator_embed w g tr query)) \<le> Suc (length tr)"
  by (auto simp: generator_embed_def embed_def fallback_embed_def Let_def
      split: generator.splits provider.splits sum.splits list.splits option.splits)

lemma fallback_chain:
  "get_embedding_generator_with_fallback ev g =
     (if g = EmbeddingGenerator OpenAI \<and> truthy (GEMINI_API_KEY ev) \<and> genai_importable ev
      then EmbeddingGenerator Gemini
      else FallbackEmbeddingGenerator (sentence_transformers_loadable ev))"
  by (simp add: get_embedding_generator_with_fallback_def EmbeddingGenerator_init_def
      FallbackEmbeddingGenerator_init_def)


text \<open>
  Claim C3. When the engine embeds a query: a success is returned as it is; a failure
  whose message carries no quota keyword is propagated unchanged, with the generator
  kept and nothing retried; a failure that carries one makes the engine replace its
  generator by the next of the chain (Gemini after OpenAI when its key is set and its
  library loads, the local model otherwise) and run the same operation once more on
  it, and whatever that second run gives is the outcome, with no further substitution.
  At most two services are called. The embedding of the catalog at start-up behaves
  the same way with \<^verbatim>\<open>embed_batch\<close>. The quota errors raised by the providers carry the
  keyword the engine looks for.
\<close>

theorem quota_failure_substitutes_once:
  "(\<forall>v tr1. generator_embed w (embedding_generator eng) tr query = (Inr v, tr1) \<longrightarrow>
       recommend_embed ev w eng tr query = (Inr v, eng, tr1))
 \<and> (\<forall>e tr1. generator_embed w (embedding_generator eng) tr query = (Inl e, tr1)
       \<and> \<not> any_quota_keyword (lower (exn_str e)) \<longrightarrow>
       recommend_embed ev w eng tr query = (Inl e, eng, tr1))
 \<and> (\<forall>e tr1. generator_embed w (embedding_generator eng) tr query = (Inl e, tr1)
       \<and> any_quota_keyword (lower (exn_str e)) \<longrightarrow>
       recommend_embed ev w eng tr query =
         (fst (generator_embed w (get_embedding_generator_with_fallback ev (embedding_generator eng)) tr1 query),
          eng\<lparr>embedding_generator := get_embedding_generator_with_fallback ev (embedding_generator eng)\<rparr>,
          snd (generator_embed w (get_embedding_generator_with_fallback ev (embedding_generator eng)) tr1 query)))
 \<and> length (snd (snd (recommend_embed ev w eng tr query))) \<le> length tr + 2
 \<and> (\<forall>embs tr1. generator_embed_batch w (embedding_generator eng) tr texts 100 = (Inr embs, tr1) \<longrightarrow>
       load_or_build_index_embed ev w eng tr texts = (Inr embs, eng, tr1))
 \<and> (\<forall>e tr1. generator_embed_batch w (embedding_generator eng) tr texts 100 = (Inl e, tr1)
       \<and> \<not> any_quota_keyword (lower (exn_str e)) \<longrightarrow>
       load_or_build_index_embed ev w eng tr texts = (Inl e, eng, tr1))
 \<and> (\<forall>e tr1. generator_embed_batch w (embedding_generator eng) tr texts 100 = (Inl e, tr1)
       \<and> any_quota_keyword (lower (exn_str e)) \<longrightarrow>
       load_or_build_index_embed ev w eng tr texts =
         (fst (generator_embed_batch w (get_embedding_generator_with_fallback ev (embedding_generator eng)) tr1 texts 100),
          eng\<lparr>embedding_generator := get_embedding_generator_with_fallback ev (embedding_generator eng)\<rparr>,
          snd (generator_embed_batch w (get_embedding_generator_with_fallback ev (embedding_generator eng)) tr1 texts 100)))
 \<and> get_embedding_generator_with_fallback ev (embedding_generator eng) =
       (if embedding_generator eng = EmbeddingGenerator OpenAI \<and> truthy (GEMINI_API_KEY ev)
           \<and> genai_importable ev
        then EmbeddingGenerator Gemini
        else FallbackEmbeddingGenerator (sentence_transformers_loadable ev))
 \<and> any_quota_keyword (lower (exn_str (openai_quota_error cause)))
 \<and> any_quota_keyword (lower (exn_str (gemini_quota_error cause)))"
proof -
  let ?g = "embedding_generator eng"
  let ?g' = "get_embedding_generator_with_fallback ev ?g"
  have a: "\<forall>v tr1. generator_embed w ?g tr query = (Inr v, tr1) \<longrightarrow>
       recommend_embed ev w eng tr query = (Inr v, eng, tr1)"
    by (simp add: recommend_embed_def)
  have b: "\<forall>e tr1. generator_embed w ?g tr query = (Inl e, tr1)
       \<and> \<not> any_quota_keyword (lower (exn_str e)) \<longrightarrow>
       recommend_embed ev w eng tr query = (Inl e, eng, tr1)"
    by (simp add: recommend_embed_def Let_def)
  have c: "\<forall>e tr1. generator_embed w ?g tr query = (Inl e, tr1)
       \<and> any_quota_keyword (lower (exn_str e)) \<longrightarrow>
       recommend_embed ev w eng tr query =
         (fst (generator_embed w ?g' tr1 query), eng\<lparr>embedding_generator := ?g'\<rparr>,
          snd (generator_embed w ?g' tr1 query))"
    by (simp add: recommend_embed_def Let_def split: prod.splits)
  have d: "length (snd (snd (recommend_embed ev w eng tr query))) \<le> length tr + 2"
  proof (cases "generator_embed w ?g tr query")
    case (Pair r tr1)
    have l1: "length tr1 \<le> Suc (length tr)"
      using generator_embed_requests [of w ?g tr query] Pair by simp
    have l2: "length (snd (generator_embed w ?g' tr1 query)) \<le> Suc (length tr1)"
      by (rule generator_embed_requests)
    show ?thesis
    proof (cases r)
      case (Inr v)
      then show ?thesis using a Pair l1 by simp
    next
      case (Inl e)
      show ?thesis
      proof (cases "any_quota_keyword (lower (exn_str e))")
        case True
        then show ?thesis using c Pair Inl l1 l2 by simp
      next
        case False
        then show ?thesis using b Pair Inl l1 by simp
      qed
    qed
  qed
  have a': "\<forall>embs tr1. generator_embed_batch w ?g tr texts 100 = (Inr embs, tr1) \<longrightarrow>
       load_or_build_index_embed ev w eng tr texts = (Inr embs, eng, tr1)"
    by (simp add: load_or_build_index_embed_def)
  have b': "\<forall>e tr1. generator_embed_batch w ?g tr texts 100 = (Inl e, tr1)
       \<and> \<not> any_quota_keyword (lower (exn_str e)) \<longrightarrow>
       load_or_build_index_embed ev w eng tr texts = (Inl e, eng, tr1)"
    by (simp add: load_or_build_index_embed_def Let_def)
  have c': "\<forall>e tr1. generator_embed_batch w ?g tr texts 100 = (Inl e, tr1)
       \<and> any_quota_keyword (lower (exn_str e)) \<longrightarrow>
       load_or_build_index_embed ev w eng tr texts =
         (fst (generator_embed_batch w ?g' tr1 texts 100), eng\<lparr>embedding_generator := ?g'\<rparr>,
          snd (generator_embed_batch w ?g' tr1 texts 100))"
    by (simp add: load_or_build_index_embed_def Let_def split: prod.splits)
  from a b c d a' b' c' fallback_chain [of ev ?g]
    openai_quota_error_is_quota [of cause] gemini_quota_error_is_quota [of cause]
  show ?thesis
    by (intro conjI)
qed

theorem quota_failure_substitutes_once_witness:
  "recommend_embed demo_env demo_world openai_engine [] ''java developer''
     = (Inr [0, 1], openai_engine\<lparr>embedding_generator := EmbeddingGenerator Gemini\<rparr>,
        [OpenAI_Embeddings_Text ''java developer'', Genai_Embed_Content ''java developer''])"
proof -
  let ?e = "openai_quota_error (Exn ''RateLimitError'' ''Error code: 429'')"
  have first: "generator_embed demo_world (embedding_generator openai_engine) [] ''java developer''
                 = (Inl ?e, [OpenAI_Embeddings_Text ''java developer''])"
    by (simp add: generator_embed_def embed_def demo_world_def openai_engine_def Let_def lower_def
        lower_char_def any_quota_keyword_def quota_keywords_def)
  have q: "any_quota_keyword (lower (exn_str ?e))"
    by (rule openai_quota_error_is_quota)
  have nxt: "get_embedding_generator_with_fallback demo_env (embedding_generator openai_engine)
               = EmbeddingGenerator Gemini"
    by (simp add: fallback_chain demo_env_def openai_engine_def truthy_def)
  have second: "generator_embed demo_world (EmbeddingGenerator Gemini)
                  [OpenAI_Embeddings_Text ''java developer''] ''java developer''
                 = (Inr [0, 1],
                    [OpenAI_Embeddings_Text ''java developer'', Genai_Embed_Content ''java developer''])"
    by (simp add: generator_embed_def embed_def demo_world_def)
  have "recommend_embed demo_env demo_world openai_engine [] ''java developer'' =
         (fst (generator_embed demo_world
                 (get_embedding_generator_with_fallback demo_env (embedding_generator openai_engine))
                 [OpenAI_Embeddings_Text ''java developer''] ''java developer''),
          openai_engine\<lparr>embedding_generator :=
             get_embedding_generator_with_fallback demo_env (embedding_generator openai_engine)\<rparr>,
          snd (generator_embed demo_world
                 (get_embedding_generator_with_fallback demo_env (embedding_generator openai_engine))
                 [OpenAI_Embeddings_Text ''java developer''] ''java developer''))"
    using quota_failure_substitutes_once
            [of demo_world openai_engine "[]" "''java developer''" demo_env]
          first q
    by blast
  then show ?thesis
    by (simp add: nxt second)
qed



section \<open>Proofs: search\<close>

lemma index_search_scan:
  "index_search idx q k = (map snd (take (nat k) (scan idx q)), map fst (take (nat k) (scan idx q)))"
  by (simp add: index_search_def scan_def Let_def)

lemma search_labels_eq:
  "search_labels float32 st q k =
     (if ntotal (index st) = 0 then []
      else filter (\<lambda>(idx, distance). idx < length (assessments st))
             (take (nat (min k (int (length (assessments st)))))
                (scan (index st) (map float32 q))))"
  by (simp add: search_labels_def index_search_scan zip_map_fst_snd Let_def)

lemma search_via_labels:
  "search float32 st q k =
     map (\<lambda>(idx, distance). (assessments st ! idx, distance)) (search_labels float32 st q k)"
  by (simp add: search_def search_labels_def Let_def split: prod.splits)

lemma l2sqr_nonneg: "0 \<le> l2sqr x y"
  unfolding l2sqr_def by (rule sum_list_nonneg) auto

lemma l2sqr_self: "l2sqr x x = 0"
  unfolding l2sqr_def by (induction x) auto

lemma l2sqr_zero_eq:
  assumes "length x = length y" "l2sqr x y = 0"
  shows "x = y"
  using assms
proof (induction x y rule: list_induct2)
  case Nil
  then show ?case by simp
next
  case (Cons a x b y)
  have n: "0 \<le> l2sqr x y" by (rule l2sqr_nonneg)
  have s: "(a - b)\<^sup>2 + l2sqr x y = 0"
    using Cons.prems by (simp add: l2sqr_def)
  have "0 \<le> (a - b)\<^sup>2" by simp
  with n s have "(a - b)\<^sup>2 = 0" "l2sqr x y = 0" by linarith+
  then show ?case using Cons.IH by simp
qed

lemma set_scan: "set (scan idx q) = set (zip [0..<ntotal idx] (map (l2sqr q) (index_xb idx)))"
  by (simp add: scan_def)

lemma scan_member:
  "(i, dd) \<in> set (scan idx q) \<longleftrightarrow> i < ntotal idx \<and> dd = l2sqr q (index_xb idx ! i)"
proof -
  have "(i, dd) \<in> set (scan idx q) \<longleftrightarrow>
          (\<exists>k. k < ntotal idx \<and> i = [0..<ntotal idx] ! k \<and> dd = map (l2sqr q) (index_xb idx) ! k)"
    by (auto simp: set_scan set_zip ntotal_def)
  also have "\<dots> \<longleftrightarrow> i < ntotal idx \<and> dd = l2sqr q (index_xb idx ! i)"
    by (auto simp: ntotal_def)
  finally show ?thesis .
qed

lemma length_scan: "length (scan idx q) = ntotal idx"
  by (simp add: scan_def ntotal_def)

lemma nearer_insort:
  "sorted_wrt nearer ys \<Longrightarrow> \<forall>y\<in>set ys. fst x < fst y \<Longrightarrow> sorted_wrt nearer (insort_key snd x ys)"
proof (induction ys)
  case Nil
  then show ?case by simp
next
  case (Cons y ys)
  show ?case
  proof (cases "snd x \<le> snd y")
    case True
    have "\<forall>z\<in>set (y # ys). nearer x z"
    proof
      fix z assume z: "z \<in> set (y # ys)"
      have "snd y \<le> snd z"
        using z Cons.prems(1) by (auto simp: nearer_def)
      then show "nearer x z"
        using True z Cons.prems(2) by (auto simp: nearer_def)
    qed
    then show ?thesis
      using True Cons.prems(1) by simp
  next
    case False
    have "sorted_wrt nearer (insort_key snd x ys)"
      using Cons by simp
    moreover have "\<forall>z\<in>set (insort_key snd x ys). nearer y z"
      using False Cons.prems(1) by (auto simp: set_insort_key nearer_def)
    ultimately show ?thesis
      using False by simp
  qed
qed

lemma nearer_sort:
  "sorted_wrt (\<lambda>a b. fst a < fst b) xs \<Longrightarrow> sorted_wrt nearer (sort_key snd xs)"
proof (induction xs)
  case Nil
  then show ?case by simp
next
  case (Cons x xs)
  then show ?case
    by (auto intro!: nearer_insort)
qed

lemma sorted_wrt_fst_zip_upt: "sorted_wrt (\<lambda>a b. fst a < fst b) (zip [m..<n] ds)"
proof -
  have "sorted_wrt (<) (map fst (zip [m..<n] ds))"
    by (simp add: map_fst_zip_take sorted_wrt_take)
  then show ?thesis
    by (simp add: sorted_wrt_map)
qed

lemma nearer_scan: "sorted_wrt nearer (scan idx q)"
  unfolding scan_def by (rule nearer_sort [OF sorted_wrt_fst_zip_upt])

lemma nearer_imp_le: "sorted_wrt nearer xs \<Longrightarrow> sorted (map snd xs)"
  by (induction xs) (auto simp: nearer_def)

lemma search_labels_props:
  "sorted_wrt nearer (search_labels float32 st q k)
   \<and> sorted (map snd (search_labels float32 st q k))
   \<and> set (search_labels float32 st q k) \<subseteq> set (scan (index st) (map float32 q))
   \<and> length (search_labels float32 st q k) \<le> min (nat k) (min (length (assessments st)) (ntotal (index st)))"
proof (cases "ntotal (index st) = 0")
  case True
  then show ?thesis by (simp add: search_labels_eq)
next
  case False
  let ?n = "nat (min k (int (length (assessments st))))"
  let ?t = "take ?n (scan (index st) (map float32 q))"
  let ?f = "filter (\<lambda>(idx, distance). idx < length (assessments st)) ?t"
  have eq: "search_labels float32 st q k = ?f"
    using False by (simp add: search_labels_eq)
  have t: "sorted_wrt nearer ?t"
    by (rule sorted_wrt_take [OF nearer_scan])
  have f: "sorted_wrt nearer ?f"
    by (rule sorted_wrt_filter [OF t])
  have l: "length ?f \<le> length ?t"
    by (rule length_filter_le)
  have lt: "length ?t \<le> min (nat k) (min (length (assessments st)) (ntotal (index st)))"
    by (auto simp: length_scan)
  have len: "length ?f \<le> min (nat k) (min (length (assessments st)) (ntotal (index st)))"
    by (rule order_trans [OF l lt])
  have s: "set ?f \<subseteq> set (scan (index st) (map float32 q))"
    by (auto dest: in_set_takeD)
  have srt: "sorted (map snd ?f)"
    by (rule nearer_imp_le [OF f])
  from f srt s len show ?thesis
    unfolding eq by (intro conjI)
qed

lemma map_snd_search: "map snd (search float32 st q k) = map snd (search_labels float32 st q k)"
  by (simp add: search_via_labels split_def comp_def)


text \<open>
  Claim C4. For every store and every \<open>k\<close>, \<^verbatim>\<open>search\<close> returns the assessments at the
  positions it kept, at most \<open>min(k, N)\<close> of them (none for \<open>k \<le> 0\<close>), with distances
  that are non-negative squared Euclidean distances to the query and non-decreasing
  along the result, equal distances in storage order; on an empty index it returns the
  empty list for every \<open>k\<close>.
\<close>

theorem search_nearest_first:
  "search float32 st q k = map (\<lambda>(idx, distance). (assessments st ! idx, distance)) (search_labels float32 st q k)
   \<and> length (search float32 st q k) \<le> min (nat k) (min (length (assessments st)) (ntotal (index st)))
   \<and> sorted (map snd (search float32 st q k))
   \<and> (\<forall>r\<in>set (search float32 st q k). 0 \<le> snd r)
   \<and> sorted_wrt nearer (search_labels float32 st q k)
   \<and> (\<forall>(i, dd)\<in>set (search_labels float32 st q k).
         i < ntotal (index st) \<and> i < length (assessments st) \<and> dd = l2sqr (map float32 q) (index_xb (index st) ! i))
   \<and> (ntotal (index st) = 0 \<longrightarrow> search float32 st q k = [])"
proof -
  have p: "sorted_wrt nearer (search_labels float32 st q k)"
    "sorted (map snd (search_labels float32 st q k))"
    "set (search_labels float32 st q k) \<subseteq> set (scan (index st) (map float32 q))"
    "length (search_labels float32 st q k) \<le> min (nat k) (min (length (assessments st)) (ntotal (index st)))"
    using search_labels_props [of float32 st q k] by auto
  have m: "\<forall>(i, dd)\<in>set (search_labels float32 st q k).
         i < ntotal (index st) \<and> i < length (assessments st) \<and> dd = l2sqr (map float32 q) (index_xb (index st) ! i)"
  proof (clarify, intro conjI)
    fix i dd assume a: "(i, dd) \<in> set (search_labels float32 st q k)"
    then have "(i, dd) \<in> set (scan (index st) (map float32 q))" using p(3) by auto
    then show "i < ntotal (index st)" "dd = l2sqr (map float32 q) (index_xb (index st) ! i)"
      by (simp_all add: scan_member)
    show "i < length (assessments st)"
      using a by (auto simp: search_labels_eq split: if_splits)
  qed
  have nn: "\<forall>r\<in>set (search float32 st q k). 0 \<le> snd r"
  proof
    fix r assume "r \<in> set (search float32 st q k)"
    then have "snd r \<in> set (map snd (search_labels float32 st q k))"
      using map_snd_search [of float32 st q k] by (metis imageI set_map)
    then obtain i where "(i, snd r) \<in> set (search_labels float32 st q k)" by auto
    then show "0 \<le> snd r" using m l2sqr_nonneg by auto
  qed
  have e: "ntotal (index st) = 0 \<longrightarrow> search float32 st q k = []"
    by (simp add: search_def)
  have len: "length (search float32 st q k) = length (search_labels float32 st q k)"
    by (simp add: search_via_labels)
  have srt: "sorted (map snd (search float32 st q k))"
    using p(2) by (simp only: map_snd_search)
  have bound: "length (search float32 st q k) \<le> min (nat k) (min (length (assessments st)) (ntotal (index st)))"
    using p(4) by (simp only: len)
  from search_via_labels [of float32 st q k] bound srt nn p(1) m e show ?thesis
    by (intro conjI)
qed

lemma demo_add:
  "add_assessments demo_float32 (FAISSVectorStore_init 2) demo_catalog demo_vectors = Inr demo_store"
  by (simp add: add_assessments_def np_array_float32_def demo_float32_def FAISSVectorStore_init_def
      IndexFlatL2_def index_add_def demo_store_def demo_catalog_def demo_vectors_def Let_def)

lemma demo_search:
  "search demo_float32 demo_store [3, 4] 2 = [(java_test, 0), (teamwork_test, 0)]"
  by (simp add: search_def index_search_def ntotal_def l2sqr_def demo_store_def demo_float32_def
      demo_catalog_def demo_vectors_def Let_def upt_rec)

theorem search_nearest_first_witness:
  "search demo_float32 demo_store [3, 4] 2 = [(java_test, 0), (teamwork_test, 0)]
   \<and> search_labels demo_float32 demo_store [3, 4] 2 = [(0, 0), (2, 0)]
   \<and> length (search demo_float32 demo_store [3, 4] 2) \<le> 2
   \<and> sorted (map snd (search demo_float32 demo_store [3, 4] 2))
   \<and> sorted_wrt nearer (search_labels demo_float32 demo_store [3, 4] 2)"
proof -
  have l: "search_labels demo_float32 demo_store [3, 4] 2 = [(0, 0), (2, 0)]"
    by (simp add: search_labels_def index_search_def ntotal_def l2sqr_def demo_store_def
        demo_float32_def demo_catalog_def demo_vectors_def Let_def upt_rec)
  show ?thesis
    using search_nearest_first [of demo_float32 demo_store "[3, 4]" 2] l demo_search
    by simp
qed


lemma first_position_in:
  "x \<in> set xs \<Longrightarrow> first_position xs x < length xs \<and> xs ! first_position xs x = x"
  by (induction xs) auto

lemma first_position_least: "m < first_position xs x \<Longrightarrow> xs ! m \<noteq> x"
proof (induction xs arbitrary: m)
  case Nil
  then show ?case by simp
next
  case (Cons y ys)
  then show ?case by (cases m) (auto split: if_splits)
qed

lemma first_position_le: "i < length xs \<Longrightarrow> first_position xs (xs ! i) \<le> i"
  using first_position_least [of i xs "xs ! i"] by (meson not_le_imp_less)

lemma first_position_unique:
  assumes "i < length xs" "\<forall>j<i. xs ! j \<noteq> xs ! i"
  shows "first_position xs (xs ! i) = i"
proof -
  let ?j = "first_position xs (xs ! i)"
  have "?j \<le> i" using assms(1) by (rule first_position_le)
  moreover have "xs ! ?j = xs ! i"
    using first_position_in [of "xs ! i" xs] assms(1) by simp
  ultimately show ?thesis
    using assms(2) by (metis le_neq_implies_less)
qed

lemma hd_scan:
  assumes "i < ntotal idx"
      and "\<forall>v\<in>set (index_xb idx). length v = length (index_xb idx ! i)"
  shows "scan idx (index_xb idx ! i) \<noteq> []
       \<and> hd (scan idx (index_xb idx ! i)) = (first_position (index_xb idx) (index_xb idx ! i), 0)"
proof -
  let ?xb = "index_xb idx"
  let ?q = "?xb ! i"
  let ?L = "scan idx ?q"
  let ?j = "first_position ?xb ?q"
  have qin: "?q \<in> set ?xb"
    using assms(1) by (simp add: ntotal_def)
  have j: "?j < ntotal idx" "?xb ! ?j = ?q"
    using first_position_in [OF qin] by (simp_all add: ntotal_def)
  have jin: "(?j, 0) \<in> set ?L"
    using j by (simp add: scan_member l2sqr_self)
  then have ne: "?L \<noteq> []" by auto
  then obtain h T where L: "?L = h # T" by (cases ?L) auto
  have hin: "h \<in> set ?L" using L by simp
  obtain m dd where h: "h = (m, dd)" by (cases h)
  have hm: "m < ntotal idx" "dd = l2sqr ?q (?xb ! m)"
    using hin h by (simp_all add: scan_member)
  have srt: "sorted_wrt nearer (h # T)"
    using nearer_scan [of idx ?q] L by simp
  have "h = (?j, 0)"
  proof (rule ccontr)
    assume neq: "h \<noteq> (?j, 0)"
    then have "(?j, 0) \<in> set T" using jin L by auto
    then have "nearer h (?j, 0)" using srt by auto
    then have c: "dd < 0 \<or> (dd = 0 \<and> m < ?j)"
      using h by (simp add: nearer_def)
    have "0 \<le> dd" using hm(2) by (simp add: l2sqr_nonneg)
    with c have z: "dd = 0" and lt: "m < ?j" by auto
    have "length ?q = length (?xb ! m)"
      using assms(2) hm(1) by (simp add: ntotal_def)
    then have "?q = ?xb ! m"
      using z hm(2) by (intro l2sqr_zero_eq) simp_all
    then show False
      using first_position_least [OF lt] by simp
  qed
  then show ?thesis using ne L by simp
qed

lemma add_assessments_Inr:
  assumes "add_assessments float32 st new_assessments embeddings = Inr st'"
  shows "length new_assessments = length embeddings"
    and "assessments st' = new_assessments"
    and "index_xb (index st') = map (map float32) embeddings"
    and "ntotal (index st') = length embeddings"
    and "dimension st' = dimension st"
  using assms
  by (auto simp: add_assessments_def np_array_float32_def index_add_def IndexFlatL2_def ntotal_def
      Let_def split: if_splits)


text \<open>
  Claim C5. \<^verbatim>\<open>add\<close> stores the vectors converted to single precision, and \<^verbatim>\<open>search\<close>
  converts the query the same way. After \<^verbatim>\<open>add\<close> accepted assessments and vectors of
  one dimension, a search (\<open>k \<ge> 1\<close>) with a query that is, once converted, the stored
  vector \<open>i\<close> (the vector given at position \<open>i\<close> is such a query) returns first, with
  distance 0, the assessment of the earliest stored vector equal to stored vector \<open>i\<close>;
  this is assessment \<open>i\<close> itself when no earlier stored vector is equal to it.
\<close>

theorem stored_vector_found_first:
  assumes "add_assessments float32 st new_assessments embeddings = Inr st'"
      and "i < length embeddings"
      and "\<forall>v\<in>set embeddings. length v = length (embeddings ! i)"
      and "map float32 q = map float32 (embeddings ! i)"
      and "0 < k"
  shows "index_xb (index st') = map (map float32) embeddings
       \<and> search float32 st' q k \<noteq> []
       \<and> hd (search float32 st' q k)
           = (new_assessments ! first_position (index_xb (index st')) (index_xb (index st') ! i), 0)
       \<and> first_position (index_xb (index st')) (index_xb (index st') ! i) \<le> i
       \<and> index_xb (index st') ! first_position (index_xb (index st')) (index_xb (index st') ! i)
           = index_xb (index st') ! i
       \<and> ((\<forall>j<i. index_xb (index st') ! j \<noteq> index_xb (index st') ! i) \<longrightarrow>
            hd (search float32 st' q k) = (new_assessments ! i, 0))"
proof -
  let ?xb = "index_xb (index st')"
  let ?j = "first_position ?xb (?xb ! i)"
  let ?L = "scan (index st') (?xb ! i)"
  define n where "n = nat (min k (int (length (assessments st'))))"
  note a = add_assessments_Inr [OF assms(1)]
  have nt: "i < ntotal (index st')" using assms(2) a(4) by simp
  have il: "i < length ?xb" using nt by (simp add: ntotal_def)
  have xi: "?xb ! i = map float32 (embeddings ! i)"
    using assms(2) by (simp add: a(3))
  have qi: "map float32 q = ?xb ! i"
    using assms(4) by (simp only: xi)
  have dims: "\<forall>v\<in>set ?xb. length v = length (?xb ! i)"
  proof
    fix v assume "v \<in> set ?xb"
    then obtain u where u: "u \<in> set embeddings" and v: "v = map float32 u"
      by (auto simp: a(3))
    have "length u = length (embeddings ! i)"
      using assms(3) u by blast
    then show "length v = length (?xb ! i)"
      by (simp add: v xi)
  qed
  have hs: "?L \<noteq> []" "hd ?L = (?j, 0)"
    using hd_scan [OF nt dims] by simp_all
  have n1: "0 < n"
    using assms(2,5) a(1,2) unfolding n_def by (cases embeddings) simp_all
  have allin: "\<forall>x\<in>set (take n ?L). case x of (idx, distance) \<Rightarrow> idx < length (assessments st')"
  proof
    fix x assume "x \<in> set (take n ?L)"
    then have xin: "x \<in> set ?L" by (rule in_set_takeD)
    obtain m dd where x: "x = (m, dd)" by (cases x)
    have "m < ntotal (index st')"
      using xin unfolding x scan_member by simp
    then show "case x of (idx, distance) \<Rightarrow> idx < length (assessments st')"
      using a(1,2,4) x by simp
  qed
  have lab: "search_labels float32 st' q k = take n ?L"
    using nt allin by (simp add: search_labels_eq n_def qi)
  have tne: "take n ?L \<noteq> []" using hs(1) n1 by simp
  have thd: "hd (take n ?L) = (?j, 0)"
    using hs n1 by (cases ?L; cases n) simp_all
  have s: "search float32 st' q k
             = map (\<lambda>(idx, distance). (assessments st' ! idx, distance)) (take n ?L)"
    by (simp only: search_via_labels lab)
  have ne: "search float32 st' q k \<noteq> []"
    using tne by (simp add: s)
  have h: "hd (search float32 st' q k) = (new_assessments ! ?j, 0)"
    using tne thd a(2) by (simp add: s hd_map)
  have le: "?j \<le> i"
    using il by (rule first_position_le)
  have same: "?xb ! ?j = ?xb ! i"
    using first_position_in [of "?xb ! i" ?xb] il by simp
  have uniq: "(\<forall>j<i. ?xb ! j \<noteq> ?xb ! i) \<longrightarrow>
            hd (search float32 st' q k) = (new_assessments ! i, 0)"
    using h first_position_unique [OF il] by simp
  from a(3) ne h le same uniq show ?thesis
    by (intro conjI)
qed

lemma demo_add_near:
  "add_assessments demo_float32 (FAISSVectorStore_init 1) [java_test, python_test]
     [[1], [1.000000001]]
   = Inr \<lparr>dimension = 1, index = \<lparr>index_d = 1, index_xb = [[1], [1]]\<rparr>,
          assessments = [java_test, python_test], embeddings_array = Some [[1], [1]]\<rparr>"
  by (simp add: add_assessments_def np_array_float32_def demo_float32_def round_def
      FAISSVectorStore_init_def IndexFlatL2_def index_add_def Let_def)

theorem stored_vector_found_first_witness:
  "add_assessments demo_float32 (FAISSVectorStore_init 2) demo_catalog demo_vectors = Inr demo_store
   \<and> hd (search demo_float32 demo_store (demo_vectors ! 2) 1) = (java_test, 0)
   \<and> hd (search demo_float32
            \<lparr>dimension = 1, index = \<lparr>index_d = 1, index_xb = [[1], [1]]\<rparr>,
             assessments = [java_test, python_test], embeddings_array = Some [[1], [1]]\<rparr>
            [1.000000001] 1) = (java_test, 0)"
proof -
  have i: "2 < length demo_vectors" by (simp add: demo_vectors_def)
  have d: "\<forall>v\<in>set demo_vectors. length v = length (demo_vectors ! 2)"
    by (simp add: demo_vectors_def)
  have k: "(0::int) < 1" by simp
  have x: "index_xb (index demo_store) = demo_vectors"
    by (simp add: demo_store_def)
  have f: "first_position demo_vectors (demo_vectors ! 2) = 0"
    by (simp add: demo_vectors_def)
  have one: "hd (search demo_float32 demo_store (demo_vectors ! 2) 1) = (java_test, 0)"
    using stored_vector_found_first [OF demo_add i d refl k] f
    by (simp add: x demo_catalog_def)
  have i2: "1 < length [[1], [1.000000001::real]]" by simp
  have d2: "\<forall>v\<in>set [[1], [1.000000001::real]]. length v = length ([[1], [1.000000001]] ! 1)"
    by simp
  have two: "hd (search demo_float32
            \<lparr>dimension = 1, index = \<lparr>index_d = 1, index_xb = [[1], [1]]\<rparr>,
             assessments = [java_test, python_test], embeddings_array = Some [[1], [1]]\<rparr>
            [1.000000001] 1) = (java_test, 0)"
    using stored_vector_found_first [OF demo_add_near i2 d2 _ k, of "[1.000000001]"]
    by simp
  from demo_add one two show ?thesis
    by (intro conjI)
qed



section \<open>Proofs: persistence and the invariant of the store\<close>

lemma search_cong:
  "index a = index b \<Longrightarrow> assessments a = assessments b \<Longrightarrow> search float32 a q k = search float32 b q k"
  by (simp add: search_def)


text \<open>
  Claim C6. Saving a store to two different paths and loading them into any store
  succeeds and gives a store with the same assessments in the same order and the same
  index, whose search returns the same results for every query and every \<open>k\<close>.
\<close>

theorem save_load_roundtrip:
  assumes "index_path \<noteq> metadata_path"
  shows "fst (load (save fs st index_path metadata_path) st0 index_path metadata_path) = Inr ()
       \<and> assessments (snd (load (save fs st index_path metadata_path) st0 index_path metadata_path))
           = assessments st
       \<and> index (snd (load (save fs st index_path metadata_path) st0 index_path metadata_path))
           = index st
       \<and> (\<forall>q k. search float32 (snd (load (save fs st index_path metadata_path) st0 index_path metadata_path)) q k
                 = search float32 st q k)"
proof -
  let ?r = "load (save fs st index_path metadata_path) st0 index_path metadata_path"
  have f: "fst ?r = Inr ()" and a: "assessments (snd ?r) = assessments st"
    and i: "index (snd ?r) = index st"
    using assms by (simp_all add: load_def save_def Let_def)
  have "\<forall>q k. search float32 (snd ?r) q k = search float32 st q k"
    using search_cong [OF i a] by simp
  with f a i show ?thesis by (intro conjI)
qed

theorem save_load_roundtrip_witness:
  "''catalog_embeddings.faiss'' \<noteq> ''catalog_metadata.json''
   \<and> assessments (snd (load (save Map.empty demo_store ''catalog_embeddings.faiss''
                             ''catalog_metadata.json'')
                         (FAISSVectorStore_init 384) ''catalog_embeddings.faiss''
                         ''catalog_metadata.json'')) = demo_catalog
   \<and> search demo_float32
        (snd (load (save Map.empty demo_store ''catalog_embeddings.faiss''
                             ''catalog_metadata.json'')
                         (FAISSVectorStore_init 384) ''catalog_embeddings.faiss''
                         ''catalog_metadata.json'')) [3, 4] 2
       = [(java_test, 0), (teamwork_test, 0)]"
proof -
  have p: "''catalog_embeddings.faiss'' \<noteq> ''catalog_metadata.json''" by simp
  show ?thesis
    using save_load_roundtrip
            [OF p, of Map.empty demo_store "FAISSVectorStore_init 384" demo_float32]
          demo_search
    by (simp add: demo_store_def)
qed


text \<open>
  Claim C7, as stated, fails for \<^verbatim>\<open>load\<close>: it installs what the two files hold without
  comparing their counts. From a file system whose index file holds one vector and
  whose metadata lists three assessments, \<^verbatim>\<open>load\<close> succeeds and leaves a store that is
  neither unchanged nor consistent.
\<close>

theorem load_installs_mismatched_pair:
  "fst (load mismatched_fs (FAISSVectorStore_init 384)
          ''catalog_embeddings.faiss'' ''catalog_metadata.json'') = Inr ()
   \<and> snd (load mismatched_fs (FAISSVectorStore_init 384)
          ''catalog_embeddings.faiss'' ''catalog_metadata.json'') \<noteq> FAISSVectorStore_init 384
   \<and> \<not> consistent (snd (load mismatched_fs (FAISSVectorStore_init 384)
          ''catalog_embeddings.faiss'' ''catalog_metadata.json''))"
  by (simp add: load_def mismatched_fs_def FAISSVectorStore_init_def IndexFlatL2_def
      consistent_def ntotal_def demo_catalog_def Let_def)


text \<open>
  Claim C7, amended. The invariant holds in the initial empty store; \<^verbatim>\<open>add\<close> with
  lists of different lengths is rejected with a ValueError; \<^verbatim>\<open>add\<close> with lists of equal
  length replaces the contents by the given pair, and the invariant holds after it;
  \<^verbatim>\<open>load\<close> leaves the store unchanged when one of the files is missing; when both
  files are readable it installs the index and the assessments they hold, and the
  invariant holds afterwards exactly when the two counts are equal, as they are for a
  pair written by \<^verbatim>\<open>save\<close> from a consistent store.
\<close>

theorem store_counts_invariant:
  "consistent (FAISSVectorStore_init dimen)
   \<and> (length new_assessments \<noteq> length embeddings \<longrightarrow>
        (\<exists>e. add_assessments float32 st new_assessments embeddings = Inl e \<and> exn_class e = ''ValueError''))
   \<and> (length new_assessments = length embeddings \<longrightarrow>
        (\<exists>st'. add_assessments float32 st new_assessments embeddings = Inr st'
           \<and> assessments st' = new_assessments
           \<and> index_xb (index st') = map (map float32) embeddings
           \<and> consistent st'))
   \<and> (fs index_path = None \<or> fs metadata_path = None \<longrightarrow>
        load fs st index_path metadata_path = (Inr (), st))
   \<and> (fs index_path = Some (Index_File idx) \<and> fs metadata_path = Some (Json_File loaded) \<longrightarrow>
        fst (load fs st index_path metadata_path) = Inr ()
        \<and> index (snd (load fs st index_path metadata_path)) = idx
        \<and> assessments (snd (load fs st index_path metadata_path)) = loaded
        \<and> (consistent (snd (load fs st index_path metadata_path))
             \<longleftrightarrow> ntotal idx = length loaded))
   \<and> (consistent st \<and> index_path \<noteq> metadata_path \<longrightarrow>
        consistent (snd (load (save fs st index_path metadata_path) st0 index_path metadata_path)))"
proof -
  have a: "consistent (FAISSVectorStore_init dimen)"
    by (simp add: consistent_def FAISSVectorStore_init_def IndexFlatL2_def ntotal_def)
  have b: "length new_assessments \<noteq> length embeddings \<longrightarrow>
        (\<exists>e. add_assessments float32 st new_assessments embeddings = Inl e \<and> exn_class e = ''ValueError'')"
    by (simp add: add_assessments_def)
  have c: "length new_assessments = length embeddings \<longrightarrow>
        (\<exists>st'. add_assessments float32 st new_assessments embeddings = Inr st'
           \<and> assessments st' = new_assessments
           \<and> index_xb (index st') = map (map float32) embeddings
           \<and> consistent st')"
    by (simp add: add_assessments_def np_array_float32_def consistent_def index_add_def
        IndexFlatL2_def ntotal_def Let_def)
  have d: "fs index_path = None \<or> fs metadata_path = None \<longrightarrow>
        load fs st index_path metadata_path = (Inr (), st)"
    by (auto simp: load_def)
  have e: "fs index_path = Some (Index_File idx) \<and> fs metadata_path = Some (Json_File loaded) \<longrightarrow>
        fst (load fs st index_path metadata_path) = Inr ()
        \<and> index (snd (load fs st index_path metadata_path)) = idx
        \<and> assessments (snd (load fs st index_path metadata_path)) = loaded
        \<and> (consistent (snd (load fs st index_path metadata_path))
             \<longleftrightarrow> ntotal idx = length loaded)"
    by (simp add: load_def Let_def consistent_def)
  have f: "consistent st \<and> index_path \<noteq> metadata_path \<longrightarrow>
        consistent (snd (load (save fs st index_path metadata_path) st0 index_path metadata_path))"
    by (simp add: load_def save_def Let_def consistent_def)
  from a b c d e f show ?thesis by (intro conjI)
qed

theorem store_counts_invariant_witness:
  "consistent (FAISSVectorStore_init 384)
   \<and> (\<exists>e. add_assessments demo_float32 (FAISSVectorStore_init 2) demo_catalog [[3, 4]] = Inl e
          \<and> exn_class e = ''ValueError'')
   \<and> (\<exists>st'. add_assessments demo_float32 (FAISSVectorStore_init 2) demo_catalog demo_vectors = Inr st'
          \<and> consistent st')
   \<and> load Map.empty demo_store ''catalog_embeddings.faiss'' ''catalog_metadata.json''
       = (Inr (), demo_store)
   \<and> consistent demo_store
   \<and> consistent (snd (load (save Map.empty demo_store ''catalog_embeddings.faiss''
                             ''catalog_metadata.json'')
                         (FAISSVectorStore_init 384) ''catalog_embeddings.faiss''
                         ''catalog_metadata.json''))"
proof -
  have c: "consistent demo_store"
    by (simp add: consistent_def demo_store_def ntotal_def demo_vectors_def demo_catalog_def)
  have l1: "length demo_catalog \<noteq> length [[3, 4::real]]"
    by (simp add: demo_catalog_def)
  have l2: "length demo_catalog = length demo_vectors"
    by (simp add: demo_catalog_def demo_vectors_def)
  have p: "''catalog_embeddings.faiss'' \<noteq> ''catalog_metadata.json''" by simp
  have n: "Map.empty ''catalog_embeddings.faiss'' = (None :: stored_file option)" by simp
  note t1 = store_counts_invariant
      [where dimen = 384 and new_assessments = demo_catalog and embeddings = "[[3, 4]]"
         and st = "FAISSVectorStore_init 2"]
  note t2 = store_counts_invariant
      [where new_assessments = demo_catalog and embeddings = demo_vectors
         and st = "FAISSVectorStore_init 2"]
  note t3 = store_counts_invariant
      [where st = demo_store and fs = Map.empty
         and index_path = "''catalog_embeddings.faiss''"
         and metadata_path = "''catalog_metadata.json''"
         and ?st0.0 = "FAISSVectorStore_init 384"]
  have a: "consistent (FAISSVectorStore_init 384)"
    by (rule t1 [THEN conjunct1])
  have b: "\<exists>e. add_assessments demo_float32 (FAISSVectorStore_init 2) demo_catalog [[3, 4]] = Inl e
          \<and> exn_class e = ''ValueError''"
    by (rule t1 [THEN conjunct2, THEN conjunct1, THEN mp, OF l1])
  have "\<exists>st'. add_assessments demo_float32 (FAISSVectorStore_init 2) demo_catalog demo_vectors = Inr st'
          \<and> assessments st' = demo_catalog
          \<and> index_xb (index st') = map (map demo_float32) demo_vectors
          \<and> consistent st'"
    by (rule t2 [THEN conjunct2, THEN conjunct2, THEN conjunct1, THEN mp, OF l2])
  then have d: "\<exists>st'. add_assessments demo_float32 (FAISSVectorStore_init 2) demo_catalog demo_vectors = Inr st'
          \<and> consistent st'"
    by (elim exE conjE) (intro exI conjI)
  have n': "Map.empty ''catalog_embeddings.faiss'' = (None :: stored_file option)
            \<or> Map.empty ''catalog_metadata.json'' = (None :: stored_file option)"
    by simp
  have e: "load Map.empty demo_store ''catalog_embeddings.faiss'' ''catalog_metadata.json''
       = (Inr (), demo_store)"
    by (rule t3 [THEN conjunct2, THEN conjunct2, THEN conjunct2, THEN conjunct1, THEN mp, OF n'])
  have f: "consistent (snd (load (save Map.empty demo_store ''catalog_embeddings.faiss''
                             ''catalog_metadata.json'')
                         (FAISSVectorStore_init 384) ''catalog_embeddings.faiss''
                         ''catalog_metadata.json''))"
    by (rule t3 [THEN conjunct2, THEN conjunct2, THEN conjunct2, THEN conjunct2, THEN conjunct2,
                 THEN mp, OF conjI [OF c p]])
  from a b d e c f show ?thesis by (intro conjI)
qed



section \<open>Proofs: rerank\<close>









section \<open>Proofs: recommend\<close>

lemma recommend_embed_keeps:
  assumes "recommend_embed ev w eng tr query = (r, eng1, tr1)"
  shows "vector_store eng1 = vector_store eng \<and> reranker eng1 = reranker eng"
  using assms
  by (auto simp: recommend_embed_def Let_def split: prod.splits sum.splits if_splits)

lemma length_py_slice_to: "0 \<le> n \<Longrightarrow> length (py_slice_to xs n) \<le> nat n"
  by (simp add: py_slice_to_def)

lemma recommend_retrieve_length:
  assumes "recommend_retrieve float32 w eng tr query qe top_k = (Inr recs, tr')" "0 \<le> top_k"
  shows "length recs \<le> nat top_k"
  using assms length_py_slice_to [OF assms(2)]
  by (auto simp: recommend_retrieve_def Let_def split: prod.splits sum.splits option.splits if_splits)


text \<open>
  What \<^verbatim>\<open>recommend\<close> does once the query is embedded: without a reranker it searches
  with \<open>top_k\<close> and calls no language model; with a reranker it searches with
  \<open>top_k * 2\<close> and calls \<^verbatim>\<open>rerank\<close> only when more than one candidate came back; it
  keeps the first \<open>top_k\<close> of the resulting list and formats each kept assessment with
  its name, url, type and description, "Unknown" standing for a missing name or type
  and the empty string for a missing url or description; an exception of \<^verbatim>\<open>rerank\<close>
  leaves \<^verbatim>\<open>recommend\<close>. For \<open>top_k \<ge> 0\<close> it returns at most \<open>top_k\<close> entries.
\<close>

lemma recommend_after_embedding:
  assumes "recommend_embed ev w eng tr query = (Inr query_embedding, eng1, tr1)"
  shows
   "(reranker eng = None \<longrightarrow>
       recommend float32 ev w eng tr query top_k =
         (Inr (map format_result
                 (py_slice_to (map fst (search float32 (vector_store eng) query_embedding top_k)) top_k)),
          eng1, tr1))
  \<and> (\<forall>provider. reranker eng = Some provider
        \<and> length (search float32 (vector_store eng) query_embedding (top_k * 2)) \<le> 1 \<longrightarrow>
       recommend float32 ev w eng tr query top_k =
         (Inr (map format_result
                 (py_slice_to (map fst (search float32 (vector_store eng) query_embedding (top_k * 2))) top_k)),
          eng1, tr1))
  \<and> (\<forall>provider kept tr2. reranker eng = Some provider
        \<and> 1 < length (search float32 (vector_store eng) query_embedding (top_k * 2))
        \<and> rerank w provider tr1 query
             (map fst (search float32 (vector_store eng) query_embedding (top_k * 2))) top_k = (Inr kept, tr2) \<longrightarrow>
       recommend float32 ev w eng tr query top_k =
         (Inr (map format_result (py_slice_to kept top_k)), eng1, tr2))
  \<and> (\<forall>provider e tr2. reranker eng = Some provider
        \<and> 1 < length (search float32 (vector_store eng) query_embedding (top_k * 2))
        \<and> rerank w provider tr1 query
             (map fst (search float32 (vector_store eng) query_embedding (top_k * 2))) top_k = (Inl e, tr2) \<longrightarrow>
       recommend float32 ev w eng tr query top_k = (Inl e, eng1, tr2))
  \<and> format_result assess =
       \<lparr>assessment_name = (case map_of assess ''name'' of None \<Rightarrow> ''Unknown'' | Some v \<Rightarrow> v),
        assessment_url = (case map_of assess ''url'' of None \<Rightarrow> [] | Some v \<Rightarrow> v),
        test_type = (case map_of assess ''type'' of None \<Rightarrow> ''Unknown'' | Some v \<Rightarrow> v),
        description = (case map_of assess ''description'' of None \<Rightarrow> [] | Some v \<Rightarrow> v)\<rparr>
  \<and> (\<forall>recs eng' tr'. recommend float32 ev w eng tr query top_k = (Inr recs, eng', tr') \<and> 0 \<le> top_k \<longrightarrow>
       length recs \<le> nat top_k)"
proof -
  note k = recommend_embed_keeps [OF assms]
  have r: "recommend float32 ev w eng tr query top_k =
             (fst (recommend_retrieve float32 w eng1 tr1 query query_embedding top_k), eng1,
              snd (recommend_retrieve float32 w eng1 tr1 query query_embedding top_k))"
    using assms by (simp add: recommend_def split: prod.splits)
  have a: "reranker eng = None \<longrightarrow>
       recommend float32 ev w eng tr query top_k =
         (Inr (map format_result
                 (py_slice_to (map fst (search float32 (vector_store eng) query_embedding top_k)) top_k)),
          eng1, tr1)"
    using k by (simp add: r recommend_retrieve_def Let_def)
  have b: "\<forall>provider. reranker eng = Some provider
        \<and> length (search float32 (vector_store eng) query_embedding (top_k * 2)) \<le> 1 \<longrightarrow>
       recommend float32 ev w eng tr query top_k =
         (Inr (map format_result
                 (py_slice_to (map fst (search float32 (vector_store eng) query_embedding (top_k * 2))) top_k)),
          eng1, tr1)"
    using k by (auto simp add: r recommend_retrieve_def Let_def)
  have c: "\<forall>provider kept tr2. reranker eng = Some provider
        \<and> 1 < length (search float32 (vector_store eng) query_embedding (top_k * 2))
        \<and> rerank w provider tr1 query
             (map fst (search float32 (vector_store eng) query_embedding (top_k * 2))) top_k = (Inr kept, tr2) \<longrightarrow>
       recommend float32 ev w eng tr query top_k =
         (Inr (map format_result (py_slice_to kept top_k)), eng1, tr2)"
    using k by (auto simp add: r recommend_retrieve_def Let_def)
  have d: "\<forall>provider e tr2. reranker eng = Some provider
        \<and> 1 < length (search float32 (vector_store eng) query_embedding (top_k * 2))
        \<and> rerank w provider tr1 query
             (map fst (search float32 (vector_store eng) query_embedding (top_k * 2))) top_k = (Inl e, tr2) \<longrightarrow>
       recommend float32 ev w eng tr query top_k = (Inl e, eng1, tr2)"
    using k by (auto simp add: r recommend_retrieve_def Let_def)
  have e: "format_result assess =
       \<lparr>assessment_name = (case map_of assess ''name'' of None \<Rightarrow> ''Unknown'' | Some v \<Rightarrow> v),
        assessment_url = (case map_of assess ''url'' of None \<Rightarrow> [] | Some v \<Rightarrow> v),
        test_type = (case map_of assess ''type'' of None \<Rightarrow> ''Unknown'' | Some v \<Rightarrow> v),
        description = (case map_of assess ''description'' of None \<Rightarrow> [] | Some v \<Rightarrow> v)\<rparr>"
    by (simp add: format_result_def get_def)
  have f: "\<forall>recs eng' tr'. recommend float32 ev w eng tr query top_k = (Inr recs, eng', tr') \<and> 0 \<le> top_k \<longrightarrow>
       length recs \<le> nat top_k"
  proof (intro allI impI)
    fix recs eng' tr'
    assume h: "recommend float32 ev w eng tr query top_k = (Inr recs, eng', tr') \<and> 0 \<le> top_k"
    then have "recommend_retrieve float32 w eng1 tr1 query query_embedding top_k = (Inr recs, tr')"
      using r by (metis fst_conv snd_conv prod.collapse)
    then show "length recs \<le> nat top_k"
      using h by (intro recommend_retrieve_length) auto
  qed
  from a b c d e f show ?thesis by (intro conjI)
qed

lemma demo_local_embed:
  "recommend_embed demo_env demo_world local_engine [] ''hiring a python developer''
     = (Inr [0, 2], local_engine, [ST_Encode ''hiring a python developer''])"
  by (simp add: recommend_embed_def generator_embed_def fallback_embed_def local_engine_def
      demo_world_def)

lemma recommend_example:
  "recommend demo_float32 demo_env demo_world local_engine [] ''hiring a python developer'' 2
     = (Inr [\<lparr>assessment_name = ''Python Test'', assessment_url = ''https://example.test/python'',
               test_type = ''Knowledge'', description = ''''\<rparr>,
             \<lparr>assessment_name = ''Java Test'', assessment_url = ''https://example.test/java'',
               test_type = ''Knowledge'', description = ''Java programming''\<rparr>],
        local_engine, [ST_Encode ''hiring a python developer''])"
proof -
  have n: "reranker local_engine = None"
    by (simp add: local_engine_def)
  have s: "search demo_float32 (vector_store local_engine) [0, 2] 2
             = [(python_test, 1), (java_test, 13)]"
    by (simp add: search_def index_search_def ntotal_def l2sqr_def demo_store_def local_engine_def
        demo_float32_def demo_catalog_def demo_vectors_def Let_def upt_rec)
  show ?thesis
    using recommend_after_embedding
            [where ?float32.0 = demo_float32 and top_k = 2, OF demo_local_embed] n
    by (simp add: s py_slice_to_def format_result_def get_def python_test_def java_test_def)
qed

text \<open>
  Claim C9. \<^verbatim>\<open>recommend\<close> is to substitute "Unknown" for a missing name rather than fail
  the request, and its formatting does. But with a reranker set and more than one
  candidate, \<^verbatim>\<open>rerank\<close> reads \<^verbatim>\<open>assess['name']\<close> while it builds its prompt, outside its
  \<^verbatim>\<open>try\<close>: on a store that holds an assessment without a name the request fails with
  KeyError, where the same request without the reranker returns the assessment under
  the name "Unknown".
\<close>

theorem recommend_fails_on_missing_name:
  "recommend demo_float32 demo_env demo_world reranking_engine [] ''hiring a python developer'' 2
     = (Inl (Exn ''KeyError'' ([CHR 0x27] @ ''name'' @ [CHR 0x27])), reranking_engine,
        [ST_Encode ''hiring a python developer''])
   \<and> recommend demo_float32 demo_env demo_world (reranking_engine\<lparr>reranker := None\<rparr>) []
        ''hiring a python developer'' 2
     = (Inr [\<lparr>assessment_name = ''Unknown'', assessment_url = ''https://example.test/python'',
               test_type = ''Knowledge'', description = ''''\<rparr>,
             \<lparr>assessment_name = ''Java Test'', assessment_url = ''https://example.test/java'',
               test_type = ''Knowledge'', description = ''Java programming''\<rparr>],
        reranking_engine\<lparr>reranker := None\<rparr>, [ST_Encode ''hiring a python developer''])"
proof -
  have e: "recommend_embed demo_env demo_world reranking_engine [] ''hiring a python developer''
             = (Inr [0, 2], reranking_engine, [ST_Encode ''hiring a python developer''])"
    by (simp add: recommend_embed_def generator_embed_def fallback_embed_def reranking_engine_def
        demo_world_def)
  have e': "recommend_embed demo_env demo_world (reranking_engine\<lparr>reranker := None\<rparr>) []
              ''hiring a python developer''
             = (Inr [0, 2], reranking_engine\<lparr>reranker := None\<rparr>,
                [ST_Encode ''hiring a python developer''])"
    by (simp add: recommend_embed_def generator_embed_def fallback_embed_def reranking_engine_def
        demo_world_def)
  have rr: "reranker reranking_engine = Some Gemini_LLM"
    "vector_store reranking_engine = nameless_store"
    by (simp_all add: reranking_engine_def)
  have s4: "search demo_float32 nameless_store [0, 2] 4 = [(nameless_test, 1), (java_test, 13)]"
    by (simp add: search_def index_search_def ntotal_def l2sqr_def nameless_store_def
        demo_float32_def Let_def upt_rec)
  have s2: "search demo_float32 nameless_store [0, 2] 2 = [(nameless_test, 1), (java_test, 13)]"
    by (simp add: search_def index_search_def ntotal_def l2sqr_def nameless_store_def
        demo_float32_def Let_def upt_rec)
  have p: "build_prompt ''hiring a python developer'' [nameless_test, java_test]
             = Inl (Exn ''KeyError'' ([CHR 0x27] @ ''name'' @ [CHR 0x27]))"
    by (simp add: build_prompt_def assessment_line_def item_def nameless_test_def)
  have r: "rerank demo_world Gemini_LLM [ST_Encode ''hiring a python developer'']
             ''hiring a python developer'' [nameless_test, java_test] 2
             = (Inl (Exn ''KeyError'' ([CHR 0x27] @ ''name'' @ [CHR 0x27])),
                [ST_Encode ''hiring a python developer''])"
    by (simp add: rerank_def p)
  have a: "recommend demo_float32 demo_env demo_world reranking_engine []
             ''hiring a python developer'' 2
     = (Inl (Exn ''KeyError'' ([CHR 0x27] @ ''name'' @ [CHR 0x27])), reranking_engine,
        [ST_Encode ''hiring a python developer''])"
    by (simp add: recommend_def e recommend_retrieve_def rr s4 r Let_def)
  have b: "recommend demo_float32 demo_env demo_world (reranking_engine\<lparr>reranker := None\<rparr>) []
        ''hiring a python developer'' 2
     = (Inr [\<lparr>assessment_name = ''Unknown'', assessment_url = ''https://example.test/python'',
               test_type = ''Knowledge'', description = ''''\<rparr>,
             \<lparr>assessment_name = ''Java Test'', assessment_url = ''https://example.test/java'',
               test_type = ''Knowledge'', description = ''Java programming''\<rparr>],
        reranking_engine\<lparr>reranker := None\<rparr>, [ST_Encode ''hiring a python developer''])"
    by (simp add: recommend_def e' recommend_retrieve_def rr s2 Let_def
        py_slice_to_def format_result_def get_def nameless_test_def java_test_def)
  from a b show ?thesis
    by (intro conjI)
qed


end
